theory Spec2Isabelle
  imports Main
begin

section \<open>Strings as the program uses them\<close>

text \<open>
  Python strings are modelled as \<open>string\<close> (lists of 8-bit characters). The program only
  inspects ASCII letters, digits and punctuation; \<open>str.lower\<close> is its ASCII part.
\<close>

definition lower_char :: "char \<Rightarrow> char" where
  "lower_char c =
     (case map_of (zip ''ABCDEFGHIJKLMNOPQRSTUVWXYZ'' ''abcdefghijklmnopqrstuvwxyz'') c of
        Some d \<Rightarrow> d
      | None \<Rightarrow> c)"

definition lower :: "string \<Rightarrow> string" where
  "lower s = map lower_char s"

text \<open>\<open>s.startswith(p)\<close>.\<close>

fun startswith :: "string \<Rightarrow> string \<Rightarrow> bool" where
  "startswith s [] = True"
| "startswith [] (p # ps) = False"
| "startswith (c # cs) (p # ps) = (c = p \<and> startswith cs ps)"

text \<open>\<open>p in s\<close> on strings: \<open>p\<close> occurs as a contiguous substring of \<open>s\<close>.\<close>

fun contains :: "string \<Rightarrow> string \<Rightarrow> bool" where
  "contains [] p = (p = [])"
| "contains (c # cs) p = (startswith (c # cs) p \<or> contains cs p)"

text \<open>\<open>s.endswith(suffix)\<close>.\<close>

definition endswith :: "string \<Rightarrow> string \<Rightarrow> bool" where
  "endswith s suffix = startswith (rev s) (rev suffix)"

section \<open>Model resolution and model-aware formatting\<close>

text \<open>\<open>resolve_embedding_model\<close>: a fixed alias table with the \<open>bge-base\<close> pair as fallback.\<close>

definition model_map :: "(string \<times> string \<times> string) list" where
  "model_map =
     [(''bge-base'', (''BAAI/bge-base-en-v1.5'', ''bge_base_'')),
      (''bge-large'', (''BAAI/bge-large-en-v1.5'', ''bge_large_'')),
      (''e5-large'', (''intfloat/e5-large-v2'', ''e5_large_'')),
      (''bb'', (''BAAI/bge-base-en-v1.5'', ''bge_base_'')),
      (''bl'', (''BAAI/bge-large-en-v1.5'', ''bge_large_'')),
      (''e5'', (''intfloat/e5-large-v2'', ''e5_large_''))]"

definition resolve_embedding_model :: "string \<Rightarrow> string \<times> string" where
  "resolve_embedding_model model_input =
     (case map_of model_map model_input of
        Some p \<Rightarrow> p
      | None \<Rightarrow> (''BAAI/bge-base-en-v1.5'', ''bge_base_''))"

text \<open>
  \<open>format_for_embedding(text, model_name, mode)\<close>. The \<open>bge\<close> test comes first, so a model
  name containing both markers is treated as a BGE model. Every mode other than
  \<open>query\<close> (after lower-casing) takes the document branch.
\<close>

definition format_for_embedding :: "string \<Rightarrow> string \<Rightarrow> string \<Rightarrow> string" where
  "format_for_embedding text model_name mode =
     (let m = lower model_name; mode' = lower mode in
      if contains m ''bge'' then
        (if mode' = ''query''
         then ''Represent this sentence for searching relevant passages: '' @ text
         else text)
      else if contains m ''e5'' then
        (if mode' = ''query'' then ''query: '' @ text else ''passage: '' @ text)
      else text)"

text \<open>\<open>s.strip()\<close>: the ASCII characters for which \<open>str.isspace\<close> holds are removed at both ends.\<close>

definition is_space :: "char \<Rightarrow> bool" where
  "is_space c = (c \<in> set [CHR '' '', CHR 0x09, CHR 0x0A, CHR 0x0B, CHR 0x0C, CHR 0x0D,
                             CHR 0x1C, CHR 0x1D, CHR 0x1E, CHR 0x1F])"

definition strip :: "string \<Rightarrow> string" where
  "strip s = rev (dropWhile is_space (rev (dropWhile is_space s)))"

section \<open>Parsed JSON and import-file validation\<close>

text \<open>
  What \<open>json.load\<close> returns. A dict is an association list, looked up with \<open>map_of\<close>.
  Numbers are never inspected by the program.
\<close>

datatype json =
    JNull
  | JBool bool
  | JNum int
  | JStr string
  | JList "json list"
  | JDict "(string \<times> json) list"

text \<open>The three checks \<open>validate_file_structure\<close> makes on one entry, in the source's order.\<close>

definition entry_ok :: "json \<Rightarrow> bool" where
  "entry_ok entry =
     (case entry of
        JDict kv \<Rightarrow>
          if map_of kv ''text'' = None \<or> map_of kv ''metadata'' = None then False
          else (case map_of kv ''metadata'' of Some (JDict md) \<Rightarrow> True | _ \<Rightarrow> False)
      | _ \<Rightarrow> False)"

text \<open>\<open>validate_file_structure\<close>: a non-empty list whose first three entries pass.\<close>

definition validate_file_structure :: "json \<Rightarrow> bool" where
  "validate_file_structure file_data =
     (case file_data of
        JList es \<Rightarrow> if length es = 0 then False else list_all entry_ok (take 3 es)
      | _ \<Rightarrow> False)"

section \<open>The vector-database service\<close>

text \<open>
  The collaborator of the program (chromadb), as the calls of the source use it: named
  collections holding (id, document, metadata) records in insertion order, with
  \<open>get\<close>, \<open>delete(ids)\<close>, \<open>add(documents, ids, metadatas)\<close> and \<open>query\<close>. Embedding
  vectors are not modelled; the order of query results is the service's own
  (\<open>ranking\<close>). Any call may fail (\<open>failing\<close>); a failed call changes nothing.
\<close>

type_synonym metadata = "(string \<times> json) list"

type_synonym item = "string \<times> string \<times> metadata"

datatype backend_op = OpOpen | OpGet | OpAdd | OpDelete | OpQuery

datatype error =
    BackendError string backend_op
  | DuplicateIDError
  | ValueError
  | KeyError string
  | TypeError
  | AttributeError

record backend =
  store :: "string \<Rightarrow> item list"
  failing :: "string \<Rightarrow> backend_op \<Rightarrow> bool"
  ranking :: "string \<Rightarrow> string \<Rightarrow> item list \<Rightarrow> item list"

definition item_id :: "item \<Rightarrow> string" where
  "item_id it = fst it"

text \<open>\<open>client.get_or_create_collection(name=...)\<close>: a collection that was never written is empty.\<close>

definition get_or_create_collection :: "backend \<Rightarrow> string \<Rightarrow> error + string" where
  "get_or_create_collection b name =
     (if failing b name OpOpen then Inl (BackendError name OpOpen) else Inr name)"

text \<open>\<open>collection.get()\<close>: every record, in insertion order.\<close>

definition col_get :: "backend \<Rightarrow> string \<Rightarrow> error + item list" where
  "col_get b name =
     (if failing b name OpGet then Inl (BackendError name OpGet) else Inr (store b name))"

text \<open>\<open>collection.delete(ids=...)\<close>: removes the records with these ids; an absent id is ignored.\<close>

definition col_delete :: "backend \<Rightarrow> string \<Rightarrow> string list \<Rightarrow> error + backend" where
  "col_delete b name ids =
     (if failing b name OpDelete then Inl (BackendError name OpDelete)
      else Inr (b\<lparr>store := (store b)(name := filter (\<lambda>it. item_id it \<notin> set ids) (store b name))\<rparr>))"

text \<open>
  \<open>collection.add(documents=..., ids=..., metadatas=...)\<close>: the batch is checked as a whole
  before anything is written (non-empty, equal lengths, no id twice); a record whose id
  is already stored is skipped.
\<close>

definition col_add ::
    "backend \<Rightarrow> string \<Rightarrow> string list \<Rightarrow> string list \<Rightarrow> metadata list \<Rightarrow> error + backend" where
  "col_add b name documents ids metadatas =
     (if failing b name OpAdd then Inl (BackendError name OpAdd)
      else if ids = [] \<or> length documents \<noteq> length ids \<or> length metadatas \<noteq> length ids
        then Inl ValueError
      else if \<not> distinct ids then Inl DuplicateIDError
      else Inr (b\<lparr>store := (store b)(name :=
             store b name @
             filter (\<lambda>it. item_id it \<notin> item_id ` set (store b name))
               (zip ids (zip documents metadatas)))\<rparr>))"

text \<open>\<open>collection.query(query_texts=[q], n_results=n)\<close>: the first \<open>n\<close> records in the service's order.\<close>

definition col_query :: "backend \<Rightarrow> string \<Rightarrow> string \<Rightarrow> nat \<Rightarrow> error + item list" where
  "col_query b name q n =
     (if failing b name OpQuery then Inl (BackendError name OpQuery)
      else Inr (take n (ranking b name q (store b name))))"

section \<open>Collections of the model set\<close>

text \<open>
  The clearing step that the source writes out in \<open>get_all_collections_for_type\<close> and again
  in the import loop: read the ids, delete them when there are any.
\<close>

definition clear_existing :: "string \<Rightarrow> backend \<Rightarrow> (error + nat) \<times> backend" where
  "clear_existing name b =
     (case col_get b name of
        Inl e \<Rightarrow> (Inl e, b)
      | Inr its \<Rightarrow>
          (let existing_ids = map item_id its in
           if existing_ids \<noteq> [] then
             (case col_delete b name existing_ids of
                Inl e \<Rightarrow> (Inl e, b)
              | Inr b' \<Rightarrow> (Inr (length existing_ids), b'))
           else (Inr 0, b)))"

definition models :: "string list" where
  "models = [''bge-base'', ''bge-large'', ''e5-large'']"

text \<open>
  The loop of \<open>get_all_collections_for_type\<close>: opens the collection of every model in turn,
  clearing it on request, and collects (collection, model name) pairs. An exception
  ends the loop; what was cleared before stays cleared.
\<close>

fun open_collections ::
    "bool \<Rightarrow> string list \<Rightarrow> backend \<Rightarrow> (error + (string \<times> string) list) \<times> backend" where
  "open_collections clear_collections [] b = (Inr [], b)"
| "open_collections clear_collections (model # rest) b =
     (let (model_name, prefix) = resolve_embedding_model model in
      case get_or_create_collection b (prefix @ ''imported_data'') of
        Inl e \<Rightarrow> (Inl e, b)
      | Inr collection \<Rightarrow>
          (case (if clear_collections then clear_existing collection b else (Inr 0, b)) of
             (Inl e, b1) \<Rightarrow> (Inl e, b1)
           | (Inr n, b1) \<Rightarrow>
               (case open_collections clear_collections rest b1 of
                  (Inl e, b2) \<Rightarrow> (Inl e, b2)
                | (Inr collections, b2) \<Rightarrow> (Inr ((collection, model_name) # collections), b2))))"

definition get_all_collections_for_type ::
    "bool \<Rightarrow> backend \<Rightarrow> (error + (string \<times> string) list) \<times> backend" where
  "get_all_collections_for_type clear_collections b = open_collections clear_collections models b"

section \<open>Listing\<close>

type_synonym id_map = "(nat \<times> string) list"

text \<open>
  \<open>display_stored_facts\<close>: the numbered lines it prints (ordinal, document, metadata) and the
  ordinal-to-id map it returns. A Python dict with distinct keys is an association list.
\<close>

definition display_stored_facts ::
    "backend \<Rightarrow> string \<Rightarrow> error + (nat \<times> string \<times> metadata) list \<times> id_map" where
  "display_stored_facts b collection =
     (case col_get b collection of
        Inl e \<Rightarrow> Inl e
      | Inr results \<Rightarrow>
          if map item_id results = [] then Inr ([], [])
          else Inr (map (\<lambda>(idx, (uid, doc, meta)). (idx, doc, meta)) (enumerate 1 results),
                    map (\<lambda>(idx, (uid, doc, meta)). (idx, uid)) (enumerate 1 results)))"

section \<open>Query-result filtering\<close>

text \<open>
  Lines 262 to 269 of \<open>main\<close>: the allowed schema suffixes from the \<open>--schemas\<close> argument.
  \<open>None\<close> means no filtering.
\<close>

definition allowed_schemas_of :: "string list option \<Rightarrow> string list option" where
  "allowed_schemas_of schemas =
     (let schema_list =
        (case schemas of
           None \<Rightarrow> Some [''data_mart'', ''reporting'']
         | Some ss \<Rightarrow> if map lower ss = [''all''] then None else Some ss)
      in case schema_list of
           None \<Rightarrow> None
         | Some ss \<Rightarrow> if ss = [] then None else Some (map (\<lambda>s. lower (strip s)) ss))"

text \<open>
  The test the filter loop makes on one result: \<open>Inr True\<close> when the result is skipped
  (\<open>continue\<close>), \<open>Inr False\<close> when it is appended. \<open>.lower()\<close> on a schema value that is not
  a string raises.
\<close>

definition skipped :: "string list option \<Rightarrow> metadata \<Rightarrow> error + bool" where
  "skipped allowed_schemas meta =
     (case allowed_schemas of
        None \<Rightarrow> Inr False
      | Some allowed \<Rightarrow>
          if allowed \<noteq> [] \<and> allowed \<noteq> [''all''] \<and> meta \<noteq> [] \<and> map_of meta ''schema'' \<noteq> None
          then (case map_of meta ''schema'' of
                  Some (JStr v) \<Rightarrow>
                    Inr (\<not> list_ex (\<lambda>suffix. endswith (lower v) suffix) allowed)
                | _ \<Rightarrow> Inl AttributeError)
          else Inr False)"

fun filter_loop :: "string list option \<Rightarrow> item list \<Rightarrow> item list \<Rightarrow> error + item list" where
  "filter_loop allowed_schemas [] filtered = Inr filtered"
| "filter_loop allowed_schemas ((uid, doc, meta) # rest) filtered =
     (case skipped allowed_schemas meta of
        Inl e \<Rightarrow> Inl e
      | Inr True \<Rightarrow> filter_loop allowed_schemas rest filtered
      | Inr False \<Rightarrow> filter_loop allowed_schemas rest (filtered @ [(uid, doc, meta)]))"

definition filter_results :: "string list option \<Rightarrow> item list \<Rightarrow> error + item list" where
  "filter_results allowed_schemas raw = filter_loop allowed_schemas raw []"

section \<open>Import\<close>

text \<open>\<open>[f(entry) for entry in file_data]\<close> where \<open>f\<close> may raise: the first exception wins.\<close>

fun try_map :: "('a \<Rightarrow> error + 'b) \<Rightarrow> 'a list \<Rightarrow> error + 'b list" where
  "try_map f [] = Inr []"
| "try_map f (x # xs) =
     (case f x of
        Inl e \<Rightarrow> Inl e
      | Inr y \<Rightarrow> (case try_map f xs of Inl e \<Rightarrow> Inl e | Inr ys \<Rightarrow> Inr (y # ys)))"

text \<open>\<open>entry[key]\<close>: \<open>KeyError\<close> on a dict without the key, \<open>TypeError\<close> on anything but a dict.\<close>

definition entry_get :: "json \<Rightarrow> string \<Rightarrow> error + json" where
  "entry_get entry key =
     (case entry of
        JDict kv \<Rightarrow> (case map_of kv key of Some v \<Rightarrow> Inr v | None \<Rightarrow> Inl (KeyError key))
      | _ \<Rightarrow> Inl TypeError)"

text \<open>
  The three arguments of \<open>add\<close>, per entry. The service takes string documents, string
  ids and dict metadatas; a value of another type is refused (\<open>ValueError\<close>) before
  anything is written, which is where the model raises it. (For an E5 model the f-string
  of the formatter would render a text that is not a string; the fan-out reaches the E5
  collection only after the BGE collections, which pass such a text on to \<open>add\<close>
  unchanged, so the run ends at the first collection either way.)
\<close>

definition text_of :: "json \<Rightarrow> error + string" where
  "text_of entry =
     (case entry_get entry ''text'' of
        Inl e \<Rightarrow> Inl e
      | Inr (JStr t) \<Rightarrow> Inr t
      | Inr _ \<Rightarrow> Inl ValueError)"

definition doc_of :: "string \<Rightarrow> json \<Rightarrow> error + string" where
  "doc_of mname entry =
     (case text_of entry of
        Inl e \<Rightarrow> Inl e
      | Inr t \<Rightarrow> Inr (format_for_embedding t mname ''document''))"

definition id_of :: "json \<Rightarrow> error + string" where
  "id_of entry =
     (case entry_get entry ''id'' of
        Inl e \<Rightarrow> Inl e
      | Inr (JStr i) \<Rightarrow> Inr i
      | Inr _ \<Rightarrow> Inl ValueError)"

definition metadata_of :: "json \<Rightarrow> error + metadata" where
  "metadata_of entry =
     (case entry_get entry ''metadata'' of
        Inl e \<Rightarrow> Inl e
      | Inr (JDict md) \<Rightarrow> Inr md
      | Inr _ \<Rightarrow> Inl ValueError)"

text \<open>
  The body of the import loop (lines 495 to 501) for one collection: clear it, build the
  three argument lists, add. The state returned with an error is the state at the raise.
\<close>

definition import_into :: "json list \<Rightarrow> string \<Rightarrow> string \<Rightarrow> backend \<Rightarrow> error option \<times> backend" where
  "import_into file_data col mname b =
     (case clear_existing col b of
        (Inl e, b1) \<Rightarrow> (Some e, b1)
      | (Inr n, b1) \<Rightarrow>
          (case try_map (doc_of mname) file_data of
             Inl e \<Rightarrow> (Some e, b1)
           | Inr formatted_docs \<Rightarrow>
               (case try_map id_of file_data of
                  Inl e \<Rightarrow> (Some e, b1)
                | Inr ids \<Rightarrow>
                    (case try_map metadata_of file_data of
                       Inl e \<Rightarrow> (Some e, b1)
                     | Inr metadatas \<Rightarrow>
                         (case col_add b1 col formatted_docs ids metadatas of
                            Inl e \<Rightarrow> (Some e, b1)
                          | Inr b2 \<Rightarrow> (None, b2))))))"

text \<open>\<open>for col, mname in collections\<close>: the first exception leaves the loop.\<close>

fun import_loop :: "json list \<Rightarrow> (string \<times> string) list \<Rightarrow> backend \<Rightarrow> error option \<times> backend" where
  "import_loop file_data [] b = (None, b)"
| "import_loop file_data ((col, mname) # rest) b =
     (case import_into file_data col mname b of
        (Some e, b1) \<Rightarrow> (Some e, b1)
      | (None, b1) \<Rightarrow> import_loop file_data rest b1)"

text \<open>\<open>for col, _ in collections: col.delete(ids=[uid])\<close>.\<close>

fun delete_loop :: "string \<Rightarrow> (string \<times> string) list \<Rightarrow> backend \<Rightarrow> error option \<times> backend" where
  "delete_loop uid [] b = (None, b)"
| "delete_loop uid ((col, mname) # rest) b =
     (case col_delete b col [uid] of
        Inl e \<Rightarrow> (Some e, b)
      | Inr b1 \<Rightarrow> delete_loop uid rest b1)"

section \<open>The interactive session\<close>

text \<open>
  The state the loop of \<open>main\<close> carries from one command to the next, and the commands of
  the loop that read or write collections of the model set. Each command is one
  iteration: an exception is caught and reported, and the loop goes on with the state
  as the exception left it.
\<close>

record session =
  collection :: string
  model_name :: string
  allowed_schemas :: "string list option"
  id_map :: id_map
  db :: backend

datatype command =
    CmdList
  | CmdQuery string nat
  | CmdDeleteOrdinal nat
  | CmdImport json

datatype reply =
    Listed "(nat \<times> string \<times> metadata) list"
  | Matches "(nat \<times> item) list"
  | Deleted nat
  | NoFactWithIndex nat
  | ImportAborted
  | Imported nat
  | Failed error

definition entries_of :: "json \<Rightarrow> json list" where
  "entries_of file_data = (case file_data of JList es \<Rightarrow> es | _ \<Rightarrow> [])"

text \<open>\<open>?\<close> with no query string: lines 362 to 365.\<close>

definition cmd_list :: "session \<Rightarrow> reply \<times> session" where
  "cmd_list s =
     (case display_stored_facts (db s) (collection s) of
        Inl e \<Rightarrow> (Failed e, s)
      | Inr (shown, m) \<Rightarrow> (Listed shown, s\<lparr>id_map := m\<rparr>))"

text \<open>\<open>?\<close> with a query string: lines 367 to 411.\<close>

definition cmd_query :: "string \<Rightarrow> nat \<Rightarrow> session \<Rightarrow> reply \<times> session" where
  "cmd_query query_string n_results s =
     (let formatted_query = format_for_embedding query_string (model_name s) ''query'' in
      case col_query (db s) (collection s) formatted_query n_results of
        Inl e \<Rightarrow> (Failed e, s)
      | Inr raw \<Rightarrow>
          (case filter_results (allowed_schemas s) raw of
             Inl e \<Rightarrow> (Failed e, s)
           | Inr filtered \<Rightarrow> (Matches (enumerate 1 filtered), s)))"

text \<open>\<open>-N\<close>: lines 433 to 448.\<close>

definition cmd_delete_ordinal :: "nat \<Rightarrow> session \<Rightarrow> reply \<times> session" where
  "cmd_delete_ordinal idx s =
     (case map_of (id_map s) idx of
        None \<Rightarrow> (NoFactWithIndex idx, s)
      | Some uid \<Rightarrow>
          (case get_all_collections_for_type True (db s) of
             (Inl e, b1) \<Rightarrow> (Failed e, s\<lparr>db := b1\<rparr>)
           | (Inr collections, b1) \<Rightarrow>
               (case delete_loop uid collections b1 of
                  (Some e, b2) \<Rightarrow> (Failed e, s\<lparr>db := b2\<rparr>)
                | (None, b2) \<Rightarrow>
                    (Deleted idx,
                     s\<lparr>db := b2, id_map := filter (\<lambda>(k, v). k \<noteq> idx) (id_map s)\<rparr>))))"

text \<open>\<open>r file\<close>: lines 483 to 507, from the parsed file on.\<close>

definition cmd_import :: "json \<Rightarrow> session \<Rightarrow> reply \<times> session" where
  "cmd_import file_data s =
     (if \<not> validate_file_structure file_data then (ImportAborted, s)
      else
        (case get_all_collections_for_type False (db s) of
           (Inl e, b1) \<Rightarrow> (Failed e, s\<lparr>db := b1\<rparr>)
         | (Inr collections, b1) \<Rightarrow>
             (case import_loop (entries_of file_data) collections b1 of
                (Some e, b2) \<Rightarrow> (Failed e, s\<lparr>db := b2\<rparr>)
              | (None, b2) \<Rightarrow> (Imported (length (entries_of file_data)), s\<lparr>db := b2\<rparr>))))"

fun step :: "command \<Rightarrow> session \<Rightarrow> reply \<times> session" where
  "step CmdList s = cmd_list s"
| "step (CmdQuery query_string n_results) s = cmd_query query_string n_results s"
| "step (CmdDeleteOrdinal idx) s = cmd_delete_ordinal idx s"
| "step (CmdImport file_data) s = cmd_import file_data s"

section \<open>Structural validity in the words of the specification\<close>

text \<open>
  The specification's description of a file that fails validation: not a non-empty
  list, or one of the first three entries is not a dict, misses the \<open>text\<close> or the
  \<open>metadata\<close> key, or has a \<open>metadata\<close> that is not a map.
\<close>

definition spec_entry_invalid :: "json \<Rightarrow> bool" where
  "spec_entry_invalid entry =
     (case entry of
        JDict kv \<Rightarrow>
          ''text'' \<notin> fst ` set kv \<or> ''metadata'' \<notin> fst ` set kv \<or>
          (case map_of kv ''metadata'' of Some (JDict md) \<Rightarrow> False | _ \<Rightarrow> True)
      | _ \<Rightarrow> True)"

definition spec_file_invalid :: "json \<Rightarrow> bool" where
  "spec_file_invalid file_data =
     (case file_data of
        JList es \<Rightarrow> es = [] \<or> list_ex spec_entry_invalid (take 3 es)
      | _ \<Rightarrow> True)"

section \<open>Derived notions used in the statements\<close>

text \<open>
  The (collection name, model name) pairs \<open>get_all_collections_for_type\<close> computes, and the
  records that an \<open>add\<close> of ids, texts formatted for model \<open>m\<close> in document mode, and
  metadatas puts into an empty collection.
\<close>

definition model_set :: "(string \<times> string) list" where
  "model_set =
     map (\<lambda>model. case resolve_embedding_model model of
            (mname, pfx) \<Rightarrow> (pfx @ ''imported_data'', mname)) models"

definition items_for :: "string \<Rightarrow> string list \<Rightarrow> string list \<Rightarrow> metadata list \<Rightarrow> item list" where
  "items_for m ids texts metadatas =
     zip ids (zip (map (\<lambda>t. format_for_embedding t m ''document'') texts) metadatas)"

section \<open>Example states\<close>

text \<open>
  A service on which no call fails and queries answer in insertion order; a service whose
  three model-set collections hold the same given records; the session as \<open>main\<close> sets
  it up (with \<open>--dont-clear\<close>, so that nothing is cleared at start) for an embedding model
  and a \<open>--schemas\<close> argument.
\<close>

definition no_faults :: "string \<Rightarrow> backend_op \<Rightarrow> bool" where
  "no_faults name op = False"

definition stored_order :: "string \<Rightarrow> string \<Rightarrow> item list \<Rightarrow> item list" where
  "stored_order name q its = its"

definition backend_with :: "item list \<Rightarrow> (string \<Rightarrow> backend_op \<Rightarrow> bool) \<Rightarrow> backend" where
  "backend_with old f =
     \<lparr>store = (\<lambda>name. if name \<in> fst ` set model_set then old else []),
      failing = f, ranking = stored_order\<rparr>"

definition start_session :: "string \<Rightarrow> string list option \<Rightarrow> backend \<Rightarrow> session" where
  "start_session embedding_model schemas b =
     (case resolve_embedding_model embedding_model of
        (mname, pfx) \<Rightarrow>
          \<lparr>collection = pfx @ ''imported_data'', model_name = mname,
           allowed_schemas = allowed_schemas_of schemas, id_map = [], db = b\<rparr>)"

definition old_fact :: item where
  "old_fact = (''fact_1'', ''stale'', [(''source'', JStr ''user'')])"

definition refund_file :: json where
  "refund_file =
     JList [JDict [(''id'', JStr ''f1''), (''text'', JStr ''refund window is 30 days''),
                   (''metadata'', JDict [(''source'', JStr ''faq'')])]]"

text \<open>A second import file, and the session over a service whose collections hold one old fact.\<close>

definition two_facts_file :: json where
  "two_facts_file =
     JList [JDict [(''id'', JStr ''f1''), (''text'', JStr ''refund window is 30 days''),
                   (''metadata'', JDict [(''source'', JStr ''faq'')])],
            JDict [(''id'', JStr ''f2''), (''text'', JStr ''orders ship in 2 days''),
                   (''metadata'', JDict [(''source'', JStr ''faq'')])]]"

definition stale_session :: "string \<Rightarrow> session" where
  "stale_session embedding_model =
     start_session embedding_model None (backend_with [old_fact] no_faults)"

text \<open>A file whose second entry has no \<open>metadata\<close> key.\<close>

definition missing_metadata_file :: json where
  "missing_metadata_file =
     JList [JDict [(''id'', JStr ''f1''), (''text'', JStr ''refund window is 30 days''),
                   (''metadata'', JDict [(''source'', JStr ''faq'')])],
            JDict [(''id'', JStr ''f2''), (''text'', JStr ''orders ship in 2 days'')]]"

text \<open>A session on the BGE base model over collections that hold two facts each.\<close>

definition second_fact :: item where
  "second_fact = (''fact_2'', ''fresh'', [(''source'', JStr ''user'')])"

definition two_fact_session :: session where
  "two_fact_session =
     start_session ''bge-base'' None (backend_with [old_fact, second_fact] no_faults)"

text \<open>
  A service on which every \<open>add\<close> to one collection fails, the session over it, and a file
  whose first three entries are complete and whose fourth has no \<open>metadata\<close> key.
\<close>

definition add_fails_on :: "string \<Rightarrow> string \<Rightarrow> backend_op \<Rightarrow> bool" where
  "add_fails_on col name op = (name = col \<and> op = OpAdd)"

definition faulty_session :: session where
  "faulty_session =
     start_session ''bge-base'' None
       (backend_with [old_fact] (add_fails_on ''bge_large_imported_data''))"

definition unvalidated_file :: json where
  "unvalidated_file =
     JList [JDict [(''id'', JStr ''f1''), (''text'', JStr ''refund window is 30 days''),
                   (''metadata'', JDict [(''source'', JStr ''faq'')])],
            JDict [(''id'', JStr ''f2''), (''text'', JStr ''orders ship in 2 days''),
                   (''metadata'', JDict [(''source'', JStr ''faq'')])],
            JDict [(''id'', JStr ''f3''), (''text'', JStr ''support answers in 1 day''),
                   (''metadata'', JDict [(''source'', JStr ''faq'')])],
            JDict [(''id'', JStr ''f4''), (''text'', JStr ''returns are free'')]]"

section \<open>Properties of the formatter\<close>

lemma lower_document [simp]: "lower ''document'' = ''document''"
  by (simp add: lower_def lower_char_def)

lemma lower_query [simp]: "lower ''query'' = ''query''"
  by (simp add: lower_def lower_char_def)

text \<open>
  Claim C6, as amended. \<open>format_for_embedding\<close> is a total function of its three arguments.
  With the model name lower-cased: a name containing \<open>bge\<close> leaves a document unchanged
  and prefixes a query with the BGE instruction; a name containing \<open>e5\<close> and not \<open>bge\<close>
  prefixes a document with \<open>passage: \<close> and a query with \<open>query: \<close>; any other name
  returns the text unchanged whatever the mode.
\<close>

theorem format_for_embedding_rules:
  "(contains (lower model_id) ''bge'' \<longrightarrow>
      format_for_embedding text model_id ''document'' = text \<and>
      format_for_embedding text model_id ''query'' =
        ''Represent this sentence for searching relevant passages: '' @ text) \<and>
   (\<not> contains (lower model_id) ''bge'' \<and> contains (lower model_id) ''e5'' \<longrightarrow>
      format_for_embedding text model_id ''document'' = ''passage: '' @ text \<and>
      format_for_embedding text model_id ''query'' = ''query: '' @ text) \<and>
   (\<not> contains (lower model_id) ''bge'' \<and> \<not> contains (lower model_id) ''e5'' \<longrightarrow>
      format_for_embedding text model_id mode = text)"
  by (simp add: format_for_embedding_def Let_def)

text \<open>The rules at the E5 model of the model set and at a model of neither family.\<close>

theorem format_for_embedding_rules_witness:
  "\<not> contains (lower ''intfloat/e5-large-v2'') ''bge'' \<and>
   contains (lower ''intfloat/e5-large-v2'') ''e5'' \<and>
   format_for_embedding ''hi'' ''intfloat/e5-large-v2'' ''document'' = ''passage: hi'' \<and>
   format_for_embedding ''hi'' ''intfloat/e5-large-v2'' ''query'' = ''query: hi''"
  using format_for_embedding_rules [of "''intfloat/e5-large-v2''" "''hi''"]
  by (simp add: lower_def lower_char_def)

text \<open>
  Claim C6 as stated fails for a model name that contains both markers: the \<open>bge\<close> branch
  is taken, and the document is not prefixed with \<open>passage: \<close>.
\<close>

theorem format_for_embedding_bge_precedence:
  "contains (lower ''bge-e5'') ''e5'' \<and>
   format_for_embedding ''x'' ''bge-e5'' ''document'' \<noteq> ''passage: '' @ ''x''"
  by (simp add: format_for_embedding_def lower_def lower_char_def)

section \<open>Schema filtering of query results\<close>

lemma skipped_total:
  "(\<forall>v. map_of meta ''schema'' = Some v \<longrightarrow> (\<exists>t. v = JStr t)) \<Longrightarrow>
   skipped a meta =
     Inr (\<exists>allowed t. a = Some allowed \<and> allowed \<noteq> [] \<and> allowed \<noteq> [''all''] \<and>
            map_of meta ''schema'' = Some (JStr t) \<and>
            \<not> (\<exists>suffix \<in> set allowed. endswith (lower t) suffix))"
  by (auto simp: skipped_def list_ex_iff split: option.splits json.splits)

lemma filter_loop_total:
  "\<forall>(uid, doc, meta) \<in> set raw. \<forall>v. map_of meta ''schema'' = Some v \<longrightarrow> (\<exists>t. v = JStr t) \<Longrightarrow>
   filter_loop a raw acc =
     Inr (acc @ filter (\<lambda>(uid, doc, meta).
        \<not> (\<exists>allowed t. a = Some allowed \<and> allowed \<noteq> [] \<and> allowed \<noteq> [''all''] \<and>
             map_of meta ''schema'' = Some (JStr t) \<and>
             \<not> (\<exists>suffix \<in> set allowed. endswith (lower t) suffix))) raw)"
proof (induction raw arbitrary: acc)
  case Nil
  then show ?case by simp
next
  case (Cons r raw)
  obtain uid doc meta where r: "r = (uid, doc, meta)" by (cases r) auto
  from Cons.prems r have ok: "\<forall>v. map_of meta ''schema'' = Some v \<longrightarrow> (\<exists>t. v = JStr t)"
    by simp
  from Cons.prems have rest:
    "\<forall>(uid, doc, meta) \<in> set raw. \<forall>v. map_of meta ''schema'' = Some v \<longrightarrow> (\<exists>t. v = JStr t)"
    by simp
  show ?case
    unfolding r using skipped_total [OF ok, of a] Cons.IH [OF rest]
    by (simp del: not_ex)
qed

text \<open>
  Claim C7, as amended. When every \<open>schema\<close> value among the results is a string, the
  filter returns the results in their order without exactly those for which the allowed
  list is non-empty and is not the one-element list \<open>all\<close>, the metadata has a \<open>schema\<close>
  key, and its lower-cased value ends with none of the allowed suffixes. A result
  without a \<open>schema\<close> key is therefore always kept.
\<close>

theorem filter_results_drops_iff:
  assumes "\<forall>(uid, doc, meta) \<in> set raw. \<forall>v. map_of meta ''schema'' = Some v \<longrightarrow> (\<exists>t. v = JStr t)"
  shows "filter_results allowed_suffixes raw =
     Inr (filter (\<lambda>(uid, doc, meta).
        \<not> (\<exists>allowed t. allowed_suffixes = Some allowed \<and> allowed \<noteq> [] \<and> allowed \<noteq> [''all''] \<and>
             map_of meta ''schema'' = Some (JStr t) \<and>
             \<not> (\<exists>suffix \<in> set allowed. endswith (lower t) suffix))) raw)"
  unfolding filter_results_def using filter_loop_total [OF assms, of allowed_suffixes "[]"]
  by simp

text \<open>
  The specification's example: suffix \<open>reporting\<close>, and results with schema
  \<open>x.reporting\<close>, schema \<open>x.data_mart\<close> and no schema key. The first and the third stay.
\<close>

theorem filter_results_drops_iff_witness:
  "filter_results (Some [''reporting''])
     [(''f1'', ''a'', [(''schema'', JStr ''x.reporting'')]),
      (''f2'', ''b'', [(''schema'', JStr ''x.data_mart'')]),
      (''f3'', ''c'', [(''source'', JStr ''user'')])] =
   Inr [(''f1'', ''a'', [(''schema'', JStr ''x.reporting'')]),
        (''f3'', ''c'', [(''source'', JStr ''user'')])]"
  using filter_results_drops_iff [of
     "[(''f1'', ''a'', [(''schema'', JStr ''x.reporting'')]),
       (''f2'', ''b'', [(''schema'', JStr ''x.data_mart'')]),
       (''f3'', ''c'', [(''source'', JStr ''user'')])]" "Some [''reporting'']"]
  by (simp add: endswith_def lower_def lower_char_def)

text \<open>
  Claim C7 as stated fails when the allowed list is exactly \<open>all\<close>, which the argument
  \<open>--schemas " all"\<close> produces: the list is non-empty, the result has a schema that does
  not end with \<open>all\<close>, and the result is kept.
\<close>

theorem filter_results_all_guard:
  "allowed_schemas_of (Some ['' all'']) = Some [''all''] \<and>
   [''all''] \<noteq> [] \<and>
   map_of [(''schema'', JStr ''x.data_mart'')] ''schema'' = Some (JStr ''x.data_mart'') \<and>
   \<not> endswith (lower ''x.data_mart'') ''all'' \<and>
   filter_results (Some [''all'']) [(''f2'', ''b'', [(''schema'', JStr ''x.data_mart'')])] =
     Inr [(''f2'', ''b'', [(''schema'', JStr ''x.data_mart'')])]"
  by (simp add: allowed_schemas_of_def strip_def is_space_def filter_results_def skipped_def
      endswith_def lower_def lower_char_def)

section \<open>Import-file validation\<close>

lemma spec_entry_invalid_iff: "spec_entry_invalid entry \<longleftrightarrow> \<not> entry_ok entry"
  by (auto simp: spec_entry_invalid_def entry_ok_def map_of_eq_None_iff
      split: json.splits option.splits)

lemma spec_file_invalid_iff:
  "spec_file_invalid file_data \<longleftrightarrow> \<not> validate_file_structure file_data"
  by (auto simp: spec_file_invalid_def validate_file_structure_def spec_entry_invalid_iff
      list_ex_iff list_all_iff split: json.splits)

text \<open>
  Claim C8. A file that is structurally invalid in the specification's sense fails
  \<open>validate_file_structure\<close>, and the import command then answers with the abort and
  leaves the whole session, with every collection of the service, as it was.
\<close>

theorem invalid_import_changes_nothing:
  assumes "spec_file_invalid file_data"
  shows "\<not> validate_file_structure file_data \<and>
         step (CmdImport file_data) s = (ImportAborted, s)"
  using assms by (simp add: spec_file_invalid_iff cmd_import_def)

section \<open>The service calls and the import loop\<close>

lemma model_set_eq:
  "model_set =
     [(''bge_base_imported_data'', ''BAAI/bge-base-en-v1.5''),
      (''bge_large_imported_data'', ''BAAI/bge-large-en-v1.5''),
      (''e5_large_imported_data'', ''intfloat/e5-large-v2'')]"
  by (simp add: model_set_def models_def resolve_embedding_model_def model_map_def)

lemma clear_existing_ok:
  "clear_existing name b = (Inr n, b') \<Longrightarrow>
   store b' = (store b)(name := []) \<and> failing b' = failing b \<and> ranking b' = ranking b \<and>
   n = length (store b name)"
  by (auto simp: clear_existing_def col_get_def col_delete_def Let_def item_id_def
      split: if_splits sum.splits)

lemma clear_existing_err: "clear_existing name b = (Inl e, b') \<Longrightarrow> b' = b"
  by (auto simp: clear_existing_def col_get_def col_delete_def Let_def
      split: if_splits sum.splits)

lemma open_collections_no_clear:
  "open_collections False ms b = (r, b') \<Longrightarrow>
   b' = b \<and>
   (case r of
      Inl e \<Rightarrow> True
    | Inr cols \<Rightarrow> cols = map (\<lambda>model. case resolve_embedding_model model of
            (mname, pfx) \<Rightarrow> (pfx @ ''imported_data'', mname)) ms)"
proof (induction ms arbitrary: r b')
  case Nil
  then show ?case by auto
next
  case (Cons model ms)
  obtain r1 b1 where rest: "open_collections False ms b = (r1, b1)"
    by (cases "open_collections False ms b") auto
  from Cons.IH [OF rest] Cons.prems rest show ?case
    by (auto simp: get_or_create_collection_def split: prod.splits sum.splits if_splits)
qed

lemma get_all_collections_no_clear:
  "get_all_collections_for_type False b = (r, b') \<Longrightarrow>
   b' = b \<and> (case r of Inl e \<Rightarrow> True | Inr cols \<Rightarrow> cols = model_set)"
  unfolding get_all_collections_for_type_def model_set_def
  by (rule open_collections_no_clear)

lemma try_map_length: "try_map f xs = Inr ys \<Longrightarrow> length ys = length xs"
  by (induction xs arbitrary: ys) (auto split: sum.splits)

lemma try_map_doc_of:
  "try_map (doc_of m) xs = Inr docs \<Longrightarrow>
   \<exists>texts. try_map text_of xs = Inr texts \<and>
           docs = map (\<lambda>t. format_for_embedding t m ''document'') texts"
  by (induction xs arbitrary: docs) (auto simp: doc_of_def split: sum.splits)

lemma try_map_doc_of_text:
  "try_map text_of xs = Inr texts \<Longrightarrow>
   try_map (doc_of m) xs = Inr (map (\<lambda>t. format_for_embedding t m ''document'') texts)"
  by (induction xs arbitrary: texts) (auto simp: doc_of_def split: sum.splits)

lemma try_map_fails:
  "x \<in> set xs \<Longrightarrow> f x = Inl e \<Longrightarrow> \<exists>e'. try_map f xs = Inl e'"
  by (induction xs) (auto split: sum.splits)

lemma import_into_ok:
  assumes "import_into fd col m b = (None, b')"
  shows "\<exists>ids texts metas.
           try_map id_of fd = Inr ids \<and> try_map text_of fd = Inr texts \<and>
           try_map metadata_of fd = Inr metas \<and> distinct ids \<and> fd \<noteq> [] \<and>
           store b' = (store b)(col := items_for m ids texts metas) \<and>
           failing b' = failing b \<and> ranking b' = ranking b"
proof -
  from assms obtain n b1 where c: "clear_existing col b = (Inr n, b1)"
    by (auto simp: import_into_def split: prod.splits sum.splits)
  from assms c obtain docs where d: "try_map (doc_of m) fd = Inr docs"
    by (auto simp: import_into_def split: prod.splits sum.splits)
  from assms c d obtain ids where i: "try_map id_of fd = Inr ids"
    by (auto simp: import_into_def split: prod.splits sum.splits)
  from assms c d i obtain metas where md: "try_map metadata_of fd = Inr metas"
    by (auto simp: import_into_def split: prod.splits sum.splits)
  from assms c d i md have a: "col_add b1 col docs ids metas = Inr b'"
    by (auto simp: import_into_def split: prod.splits sum.splits)
  from try_map_doc_of [OF d] obtain texts where
    t: "try_map text_of fd = Inr texts" and
    docs: "docs = map (\<lambda>t. format_for_embedding t m ''document'') texts"
    by blast
  from clear_existing_ok [OF c] have b1: "store b1 = (store b)(col := [])"
    "failing b1 = failing b" "ranking b1 = ranking b" by auto
  from a have ok: "distinct ids" "ids \<noteq> []"
    by (auto simp: col_add_def split: if_splits)
  from a b1 have "store b' = (store b)(col := zip ids (zip docs metas))"
    "failing b' = failing b" "ranking b' = ranking b"
    by (auto simp: col_add_def split: if_splits)
  moreover from ok(2) try_map_length [OF i] have "fd \<noteq> []" by auto
  ultimately show ?thesis using i t md ok docs
    by (auto simp: items_for_def)
qed

lemma import_into_err:
  "import_into fd col m b = (Some e, b') \<Longrightarrow>
   (b' = b \<or> store b' = (store b)(col := [])) \<and> failing b' = failing b \<and> ranking b' = ranking b"
  by (auto simp: import_into_def split: prod.splits sum.splits
      dest!: clear_existing_ok clear_existing_err)

lemma import_into_frame:
  "import_into fd col m b = (r, b') \<Longrightarrow>
   failing b' = failing b \<and> ranking b' = ranking b \<and> (\<forall>name. name \<noteq> col \<longrightarrow> store b' name = store b name)"
  by (cases r) (auto dest!: import_into_ok import_into_err)

lemma import_loop_frame:
  "import_loop fd cols b = (r, b') \<Longrightarrow>
   failing b' = failing b \<and> ranking b' = ranking b \<and>
   (\<forall>name. name \<notin> fst ` set cols \<longrightarrow> store b' name = store b name)"
proof (induction fd cols b rule: import_loop.induct)
  case (1 fd b)
  then show ?case by simp
next
  case (2 fd col mname rest b)
  obtain r1 b1 where i: "import_into fd col mname b = (r1, b1)"
    by (cases "import_into fd col mname b") auto
  show ?case
  proof (cases r1)
    case None
    with 2 i have "import_loop fd rest b1 = (r, b')" by simp
    from "2.IH" [OF i [symmetric] None this] import_into_frame [OF i]
    show ?thesis by auto
  next
    case (Some e)
    with 2 i have "b' = b1" by simp
    with import_into_frame [OF i] show ?thesis by auto
  qed
qed

lemma import_loop_append:
  "import_loop fd (pre @ post) b =
     (case import_loop fd pre b of
        (Some e, b1) \<Rightarrow> (Some e, b1)
      | (None, b1) \<Rightarrow> import_loop fd post b1)"
  by (induction fd pre b rule: import_loop.induct) (auto split: prod.splits option.splits)

lemma import_loop_ok:
  assumes "import_loop fd cols b = (None, b')"
    and "distinct (map fst cols)"
    and "try_map id_of fd = Inr ids" "try_map text_of fd = Inr texts"
        "try_map metadata_of fd = Inr metas"
  shows "failing b' = failing b \<and> ranking b' = ranking b \<and>
         (\<forall>name. store b' name =
            (case map_of cols name of
               Some m \<Rightarrow> items_for m ids texts metas
             | None \<Rightarrow> store b name))"
  using assms(1,2)
proof (induction cols arbitrary: b)
  case Nil
  then show ?case by simp
next
  case (Cons c rest)
  obtain col mname where c: "c = (col, mname)" by (cases c) auto
  from Cons.prems c obtain b1 where i: "import_into fd col mname b = (None, b1)"
    and l: "import_loop fd rest b1 = (None, b')"
    by (auto split: prod.splits option.splits)
  from Cons.prems c have d: "distinct (map fst rest)" and nin: "col \<notin> fst ` set rest" by auto
  from Cons.IH [OF l d]
  have ih: "failing b' = failing b1" "ranking b' = ranking b1"
    "\<And>name. store b' name = (case map_of rest name of
               Some m \<Rightarrow> items_for m ids texts metas
             | None \<Rightarrow> store b1 name)" by auto
  from import_into_ok [OF i] assms(3-5)
  have s1: "store b1 = (store b)(col := items_for mname ids texts metas)"
    "failing b1 = failing b" "ranking b1 = ranking b" by auto
  from nin have "map_of rest col = None" by (simp add: map_of_eq_None_iff)
  with ih s1 c show ?case by (auto split: option.splits)
qed

text \<open>The formatter and the opening of the collections at the model set.\<close>

lemma format_document_model_set:
  "format_for_embedding t ''BAAI/bge-base-en-v1.5'' ''document'' = t"
  "format_for_embedding t ''BAAI/bge-large-en-v1.5'' ''document'' = t"
  "format_for_embedding t ''intfloat/e5-large-v2'' ''document'' = ''passage: '' @ t"
  by (simp_all add: format_for_embedding_def lower_def lower_char_def)

lemma open_collections_model_set:
  "get_all_collections_for_type False b =
     (if failing b ''bge_base_imported_data'' OpOpen
        then (Inl (BackendError ''bge_base_imported_data'' OpOpen), b)
      else if failing b ''bge_large_imported_data'' OpOpen
        then (Inl (BackendError ''bge_large_imported_data'' OpOpen), b)
      else if failing b ''e5_large_imported_data'' OpOpen
        then (Inl (BackendError ''e5_large_imported_data'' OpOpen), b)
      else (Inr model_set, b))"
  by (simp add: get_all_collections_for_type_def models_def resolve_embedding_model_def
      model_map_def get_or_create_collection_def model_set_eq)

lemma start_session_bge_base:
  "start_session ''bge-base'' None b =
     \<lparr>collection = ''bge_base_imported_data'', model_name = ''BAAI/bge-base-en-v1.5'',
      allowed_schemas = Some [''data_mart'', ''reporting''], id_map = [], db = b\<rparr>"
  by (simp add: start_session_def resolve_embedding_model_def model_map_def
      allowed_schemas_of_def strip_def is_space_def lower_def lower_char_def)

lemma try_map_nth:
  "try_map f xs = Inr ys \<Longrightarrow> i < length xs \<Longrightarrow> f (xs ! i) = Inr (ys ! i)"
proof (induction xs arbitrary: ys i)
  case Nil
  then show ?case by simp
next
  case (Cons x xs)
  then show ?case by (cases i) (auto split: sum.splits)
qed

lemma cmd_import_ok:
  assumes "step (CmdImport file_data) s = (Imported n, s')"
  shows "\<exists>ids texts metas.
           try_map id_of (entries_of file_data) = Inr ids \<and>
           try_map text_of (entries_of file_data) = Inr texts \<and>
           try_map metadata_of (entries_of file_data) = Inr metas \<and>
           distinct ids \<and> n = length (entries_of file_data) \<and>
           (\<forall>name. store (db s') name =
              (case map_of model_set name of
                 Some m \<Rightarrow> items_for m ids texts metas
               | None \<Rightarrow> store (db s) name))"
proof -
  from assms have v: "validate_file_structure file_data"
    by (auto simp: cmd_import_def split: if_splits)
  from assms v obtain cols b1 where g: "get_all_collections_for_type False (db s) = (Inr cols, b1)"
    by (auto simp: cmd_import_def split: prod.splits sum.splits option.splits)
  from get_all_collections_no_clear [OF g] have b1: "b1 = db s" and cols: "cols = model_set" by auto
  from assms v g obtain b2 where l: "import_loop (entries_of file_data) cols b1 = (None, b2)"
    and s': "s' = s\<lparr>db := b2\<rparr>" and n: "n = length (entries_of file_data)"
    by (auto simp: cmd_import_def split: prod.splits sum.splits option.splits)
  from l cols obtain b3 where i: "import_into (entries_of file_data) ''bge_base_imported_data'' ''BAAI/bge-base-en-v1.5'' b1 = (None, b3)"
    by (auto simp: model_set_eq split: prod.splits option.splits)
  from import_into_ok [OF i] obtain ids texts metas where
    t: "try_map id_of (entries_of file_data) = Inr ids"
       "try_map text_of (entries_of file_data) = Inr texts"
       "try_map metadata_of (entries_of file_data) = Inr metas" "distinct ids"
    by blast
  have d: "distinct (map fst cols)" by (simp add: cols model_set_eq)
  from import_loop_ok [OF l d t(1-3)] t n s' b1 cols show ?thesis by auto
qed

section \<open>A successful import\<close>

lemma items_for_length:
  "length texts = length ids \<Longrightarrow> length metas = length ids \<Longrightarrow>
   length (items_for m ids texts metas) = length ids"
  by (simp add: items_for_def)

lemma model_set_map_of: "(c, m) \<in> set model_set \<Longrightarrow> map_of model_set c = Some m"
  by (auto simp: model_set_eq)


lemma items_for_parts:
  assumes "length texts = length ids" "length metas = length ids"
  shows "map item_id (items_for m ids texts metas) = ids"
    and "map (\<lambda>it. fst (snd it)) (items_for m ids texts metas) =
           map (\<lambda>t. format_for_embedding t m ''document'') texts"
    and "map (\<lambda>it. snd (snd it)) (items_for m ids texts metas) = metas"
proof -
  let ?docs = "map (\<lambda>t. format_for_embedding t m ''document'') texts"
  have l: "length (zip ?docs metas) = length ids" using assms by simp
  have "map fst (zip ids (zip ?docs metas)) = ids" using l by (simp add: map_fst_zip)
  then show "map item_id (items_for m ids texts metas) = ids"
    by (simp add: items_for_def item_id_def [abs_def])
  have "map snd (zip ids (zip ?docs metas)) = zip ?docs metas" using l by (simp add: map_snd_zip)
  moreover have "map fst (zip ?docs metas) = ?docs" using assms by (simp add: map_fst_zip)
  moreover have "map snd (zip ?docs metas) = metas" using assms by (simp add: map_snd_zip)
  ultimately show "map (\<lambda>it. fst (snd it)) (items_for m ids texts metas) = ?docs"
    and "map (\<lambda>it. snd (snd it)) (items_for m ids texts metas) = metas"
    by (simp_all add: items_for_def flip: map_map [unfolded comp_def])
qed

text \<open>
  Claim C5, as amended. When the import command reports success for a file of \<open>n\<close>
  entries, every collection of the model set holds exactly \<open>n\<close> records, in the file's
  order, with the entries' ids and metadata; the stored document of an entry is its text
  formatted for the collection's model in document mode (\<open>items_for\<close>), which is the text
  itself in the two BGE collections and the text prefixed with \<open>passage: \<close> in the E5
  collection. What the collections held before does not matter.
\<close>

theorem import_replaces_every_collection:
  assumes "step (CmdImport file_data) s = (Imported n, s')"
  shows "\<exists>ids texts metas.
           try_map id_of (entries_of file_data) = Inr ids \<and>
           try_map text_of (entries_of file_data) = Inr texts \<and>
           try_map metadata_of (entries_of file_data) = Inr metas \<and>
           n = length (entries_of file_data) \<and>
           (\<forall>(col, m) \<in> set model_set.
              store (db s') col = items_for m ids texts metas \<and>
              length (store (db s') col) = n)"
proof -
  from cmd_import_ok [OF assms] obtain ids texts metas where
    t: "try_map id_of (entries_of file_data) = Inr ids"
       "try_map text_of (entries_of file_data) = Inr texts"
       "try_map metadata_of (entries_of file_data) = Inr metas"
    and n: "n = length (entries_of file_data)"
    and st: "\<And>name. store (db s') name =
              (case map_of model_set name of
                 Some m \<Rightarrow> items_for m ids texts metas
               | None \<Rightarrow> store (db s) name)"
    by blast
  have len: "length texts = length ids" "length metas = length ids" "length ids = n"
    using t n by (auto dest!: try_map_length)
  have "\<forall>(col, m) \<in> set model_set.
              store (db s') col = items_for m ids texts metas \<and>
              length (store (db s') col) = n"
    using st len by (auto simp: model_set_map_of items_for_length)
  with t n show ?thesis by blast
qed

lemma import_into_succeeds:
  assumes "try_map id_of fd = Inr ids" "try_map text_of fd = Inr texts"
    "try_map metadata_of fd = Inr metas" "distinct ids" "fd \<noteq> []"
    and "\<forall>op. \<not> failing b col op"
  shows "\<exists>b'. import_into fd col m b = (None, b')"
proof -
  from assms(6) have "\<exists>n b1. clear_existing col b = (Inr n, b1)"
    by (simp add: clear_existing_def col_get_def col_delete_def Let_def)
  then obtain n b1 where c: "clear_existing col b = (Inr n, b1)" by blast
  from clear_existing_ok [OF c] assms(6) have f: "\<not> failing b1 col OpAdd" by simp
  have len: "length ids = length fd" "length texts = length fd" "length metas = length fd"
    using assms(1-3) by (auto dest: try_map_length)
  with assms(5) have "ids \<noteq> []" by auto
  with f len assms(4) obtain b2 where
    "col_add b1 col (map (\<lambda>t. format_for_embedding t m ''document'') texts) ids metas = Inr b2"
    by (auto simp: col_add_def)
  with c assms(1,3) try_map_doc_of_text [OF assms(2), of m] show ?thesis
    by (simp add: import_into_def)
qed

lemma import_loop_succeeds:
  assumes "try_map id_of fd = Inr ids" "try_map text_of fd = Inr texts"
    "try_map metadata_of fd = Inr metas" "distinct ids" "fd \<noteq> []"
  shows "\<forall>(col, m) \<in> set cols. \<forall>op. \<not> failing b col op \<Longrightarrow>
         \<exists>b'. import_loop fd cols b = (None, b')"
proof (induction cols arbitrary: b)
  case Nil
  then show ?case by simp
next
  case (Cons c cols)
  obtain col m where c: "c = (col, m)" by (cases c) auto
  from Cons.prems c have "\<forall>op. \<not> failing b col op" by auto
  from import_into_succeeds [OF assms this] obtain b1 where
    i: "import_into fd col m b = (None, b1)" by blast
  from import_into_frame [OF i] Cons.prems
  have "\<forall>(col, m) \<in> set cols. \<forall>op. \<not> failing b1 col op" by auto
  from Cons.IH [OF this] i c show ?case by simp
qed

lemma cmd_import_succeeds:
  assumes "validate_file_structure file_data"
    and "try_map id_of (entries_of file_data) = Inr ids"
    and "try_map text_of (entries_of file_data) = Inr texts"
    and "try_map metadata_of (entries_of file_data) = Inr metas"
    and "distinct ids"
    and "\<forall>(col, m) \<in> set model_set. \<forall>op. \<not> failing (db s) col op"
  shows "fst (step (CmdImport file_data) s) = Imported (length (entries_of file_data))"
proof -
  from assms(1) have ne: "entries_of file_data \<noteq> []"
    by (auto simp: validate_file_structure_def entries_of_def split: json.splits if_splits)
  from assms(6) have g: "get_all_collections_for_type False (db s) = (Inr model_set, db s)"
    by (simp add: open_collections_model_set model_set_eq)
  from import_loop_succeeds [OF assms(2-5) ne assms(6)] obtain b' where
    "import_loop (entries_of file_data) model_set (db s) = (None, b')" by blast
  with assms(1) g show ?thesis by (simp add: cmd_import_def)
qed

lemma cmd_import_run:
  assumes "validate_file_structure file_data"
    and "try_map id_of (entries_of file_data) = Inr ids"
    and "try_map text_of (entries_of file_data) = Inr texts"
    and "try_map metadata_of (entries_of file_data) = Inr metas"
    and "distinct ids"
    and "\<forall>(col, m) \<in> set model_set. \<forall>op. \<not> failing (db s) col op"
  shows "step (CmdImport file_data) s =
           (Imported (length (entries_of file_data)), snd (step (CmdImport file_data) s))"
    and "store (db (snd (step (CmdImport file_data) s))) name =
           (case map_of model_set name of
              Some m \<Rightarrow> items_for m ids texts metas
            | None \<Rightarrow> store (db s) name)"
proof -
  from cmd_import_succeeds [OF assms]
  show run: "step (CmdImport file_data) s =
           (Imported (length (entries_of file_data)), snd (step (CmdImport file_data) s))"
    by (metis prod.collapse)
  from cmd_import_ok [OF run] assms(2-4)
  show "store (db (snd (step (CmdImport file_data) s))) name =
           (case map_of model_set name of
              Some m \<Rightarrow> items_for m ids texts metas
            | None \<Rightarrow> store (db s) name)"
    by auto
qed

lemma two_facts_parts:
  "validate_file_structure two_facts_file"
  "try_map id_of (entries_of two_facts_file) = Inr [''f1'', ''f2'']"
  "try_map text_of (entries_of two_facts_file) =
     Inr [''refund window is 30 days'', ''orders ship in 2 days'']"
  "try_map metadata_of (entries_of two_facts_file) =
     Inr [[(''source'', JStr ''faq'')], [(''source'', JStr ''faq'')]]"
  "length (entries_of two_facts_file) = 2"
  by (simp_all add: two_facts_file_def entries_of_def id_of_def text_of_def metadata_of_def
      entry_get_def validate_file_structure_def entry_ok_def)

lemma refund_parts:
  "validate_file_structure refund_file"
  "try_map id_of (entries_of refund_file) = Inr [''f1'']"
  "try_map text_of (entries_of refund_file) = Inr [''refund window is 30 days'']"
  "try_map metadata_of (entries_of refund_file) = Inr [[(''source'', JStr ''faq'')]]"
  "length (entries_of refund_file) = 1"
  by (simp_all add: refund_file_def entries_of_def id_of_def text_of_def metadata_of_def
      entry_get_def validate_file_structure_def entry_ok_def)

lemma stale_session_db:
  "db (stale_session em) = backend_with [old_fact] no_faults"
  "id_map (stale_session em) = []"
  by (simp_all add: stale_session_def start_session_def split: prod.splits)

lemma stale_session_no_faults:
  "\<forall>(col, m) \<in> set model_set. \<forall>op. \<not> failing (db (stale_session em)) col op"
  by (simp add: stale_session_db backend_with_def no_faults_def)

lemma two_facts_run:
  "step (CmdImport two_facts_file) (stale_session em) =
     (Imported 2, snd (step (CmdImport two_facts_file) (stale_session em)))"
  "store (db (snd (step (CmdImport two_facts_file) (stale_session em)))) name =
     (case map_of model_set name of
        Some m \<Rightarrow> items_for m [''f1'', ''f2'']
          [''refund window is 30 days'', ''orders ship in 2 days'']
          [[(''source'', JStr ''faq'')], [(''source'', JStr ''faq'')]]
      | None \<Rightarrow> store (db (stale_session em)) name)"
  "fst (step (CmdImport two_facts_file) (stale_session em)) = Imported 2"
  using cmd_import_run [OF two_facts_parts(1-4) _ stale_session_no_faults]
    cmd_import_succeeds [OF two_facts_parts(1-4) _ stale_session_no_faults]
  by (simp_all add: two_facts_parts(5) del: step.simps)

lemma refund_run:
  "step (CmdImport refund_file) (stale_session em) =
     (Imported 1, snd (step (CmdImport refund_file) (stale_session em)))"
  "store (db (snd (step (CmdImport refund_file) (stale_session em)))) name =
     (case map_of model_set name of
        Some m \<Rightarrow> items_for m [''f1''] [''refund window is 30 days'']
          [[(''source'', JStr ''faq'')]]
      | None \<Rightarrow> store (db (stale_session em)) name)"
  "fst (step (CmdImport refund_file) (stale_session em)) = Imported 1"
  using cmd_import_run [OF refund_parts(1-4) _ stale_session_no_faults]
    cmd_import_succeeds [OF refund_parts(1-4) _ stale_session_no_faults]
  by (simp_all add: refund_parts(5) del: step.simps)

text \<open>Two entries imported over one old fact per collection.\<close>

theorem import_replaces_every_collection_witness:
  "step (CmdImport two_facts_file) (stale_session ''bge-base'') =
     (Imported 2, snd (step (CmdImport two_facts_file) (stale_session ''bge-base''))) \<and>
   store (db (snd (step (CmdImport two_facts_file) (stale_session ''bge-base''))))
     ''bge_large_imported_data'' =
   [(''f1'', ''refund window is 30 days'', [(''source'', JStr ''faq'')]),
    (''f2'', ''orders ship in 2 days'', [(''source'', JStr ''faq'')])]"
proof -
  let ?s' = "snd (step (CmdImport two_facts_file) (stale_session ''bge-base''))"
  have run: "step (CmdImport two_facts_file) (stale_session ''bge-base'') = (Imported 2, ?s')"
    by (rule two_facts_run(1))
  from import_replaces_every_collection [OF run] two_facts_parts
  have "\<forall>(col, m) \<in> set model_set.
          store (db ?s') col =
            items_for m [''f1'', ''f2'']
              [''refund window is 30 days'', ''orders ship in 2 days'']
              [[(''source'', JStr ''faq'')], [(''source'', JStr ''faq'')]]"
    by auto
  then have "store (db ?s') ''bge_large_imported_data'' =
     items_for ''BAAI/bge-large-en-v1.5'' [''f1'', ''f2'']
              [''refund window is 30 days'', ''orders ship in 2 days'']
              [[(''source'', JStr ''faq'')], [(''source'', JStr ''faq'')]]"
    by (simp add: model_set_eq)
  then show ?thesis using run
    by (simp add: items_for_def format_document_model_set del: step.simps)
qed

text \<open>
  Claim C5 as stated fails: after the import of two entries into non-empty collections,
  the E5 collection holds documents that differ from the imported texts.
\<close>

theorem import_prefixes_e5_documents:
  "fst (step (CmdImport two_facts_file) (stale_session ''bge-base'')) = Imported 2 \<and>
   store (db (stale_session ''bge-base'')) ''e5_large_imported_data'' \<noteq> [] \<and>
   store (db (snd (step (CmdImport two_facts_file) (stale_session ''bge-base''))))
     ''e5_large_imported_data'' =
   [(''f1'', ''passage: refund window is 30 days'', [(''source'', JStr ''faq'')]),
    (''f2'', ''passage: orders ship in 2 days'', [(''source'', JStr ''faq'')])] \<and>
   store (db (snd (step (CmdImport two_facts_file) (stale_session ''bge-base''))))
     ''e5_large_imported_data'' \<noteq>
   [(''f1'', ''refund window is 30 days'', [(''source'', JStr ''faq'')]),
    (''f2'', ''orders ship in 2 days'', [(''source'', JStr ''faq'')])]"
  by (simp add: two_facts_run(2,3) model_set_eq items_for_def format_document_model_set
      stale_session_db backend_with_def del: step.simps)

text \<open>
  Claim C2, as amended. After a successful import, listing any collection of the model
  set shows, at the position of each entry, the entry's metadata unchanged and as document
  the entry's text formatted for that collection's model: the text itself for the two
  BGE collections, \<open>passage: \<close> followed by the text for the E5 collection.
\<close>

theorem imported_fact_listed_formatted:
  assumes "step (CmdImport file_data) s = (Imported n, s')"
    and "(col, m) \<in> set model_set"
    and "i < n"
    and "display_stored_facts (db s') col = Inr (shown, idm)"
  shows "\<exists>uid t md.
           id_of (entries_of file_data ! i) = Inr uid \<and>
           text_of (entries_of file_data ! i) = Inr t \<and>
           metadata_of (entries_of file_data ! i) = Inr md \<and>
           shown ! i = (Suc i, format_for_embedding t m ''document'', md) \<and>
           format_for_embedding t m ''document'' =
             (if col = ''e5_large_imported_data'' then ''passage: '' @ t else t)"
proof -
  from cmd_import_ok [OF assms(1)] obtain ids texts metas where
    t: "try_map id_of (entries_of file_data) = Inr ids"
       "try_map text_of (entries_of file_data) = Inr texts"
       "try_map metadata_of (entries_of file_data) = Inr metas"
    and n: "n = length (entries_of file_data)"
    and st: "\<And>name. store (db s') name =
              (case map_of model_set name of
                 Some m \<Rightarrow> items_for m ids texts metas
               | None \<Rightarrow> store (db s) name)"
    by blast
  have len: "length texts = n" "length metas = n" "length ids = n"
    using t n by (auto dest!: try_map_length)
  from st assms(2) have sc: "store (db s') col = items_for m ids texts metas"
    by (simp add: model_set_map_of)
  have it: "items_for m ids texts metas ! i =
      (ids ! i, format_for_embedding (texts ! i) m ''document'', metas ! i)"
    using len assms(3) by (simp add: items_for_def)
  from assms(3) len have ne: "items_for m ids texts metas \<noteq> []"
    by (auto simp: items_for_def)
  from assms(4) sc ne have shown:
    "shown = map (\<lambda>(idx, (uid, doc, meta)). (idx, doc, meta))
               (enumerate 1 (items_for m ids texts metas))"
    by (auto simp: display_stored_facts_def col_get_def split: if_splits)
  have li: "i < length (items_for m ids texts metas)"
    using len assms(3) by (simp add: items_for_def)
  have "shown ! i = (Suc i, format_for_embedding (texts ! i) m ''document'', metas ! i)"
    unfolding shown using li it by (simp add: nth_enumerate_eq)
  moreover have "format_for_embedding (texts ! i) m ''document'' =
     (if col = ''e5_large_imported_data'' then ''passage: '' @ texts ! i else texts ! i)"
    using assms(2)
    by (auto simp: model_set_eq format_document_model_set)
  moreover from assms(3) n have "i < length (entries_of file_data)" by simp
  note try_map_nth [OF t(1) this] try_map_nth [OF t(2) this] try_map_nth [OF t(3) this]
  ultimately show ?thesis by blast
qed

section \<open>Concrete runs of the import\<close>

text \<open>
  The specification's example for claim C8: a file with one entry that lacks \<open>metadata\<close> is
  refused, and the old fact is still stored.
\<close>

theorem invalid_import_changes_nothing_witness:
  "spec_file_invalid missing_metadata_file \<and>
   \<not> validate_file_structure missing_metadata_file \<and>
   step (CmdImport missing_metadata_file) (stale_session ''bge-base'') =
     (ImportAborted, stale_session ''bge-base'') \<and>
   store (db (stale_session ''bge-base'')) ''bge_base_imported_data'' = [old_fact]"
proof -
  have h: "spec_file_invalid missing_metadata_file"
    by (simp add: spec_file_invalid_def spec_entry_invalid_def missing_metadata_file_def)
  from invalid_import_changes_nothing [OF h, of "stale_session ''bge-base''"] h
  show ?thesis
    by (simp add: stale_session_db backend_with_def model_set_eq del: step.simps)
qed

lemma cmd_import_session:
  "\<exists>b. snd (step (CmdImport file_data) s) = s\<lparr>db := b\<rparr> \<and>
       failing b = failing (db s) \<and> ranking b = ranking (db s)"
proof (cases "validate_file_structure file_data")
  case False
  then show ?thesis by (auto simp: cmd_import_def intro!: exI [of _ "db s"])
next
  case True
  obtain r b1 where g: "get_all_collections_for_type False (db s) = (r, b1)"
    by (cases "get_all_collections_for_type False (db s)") auto
  from get_all_collections_no_clear [OF g] have b1: "b1 = db s" by simp
  show ?thesis
  proof (cases r)
    case (Inl e)
    with True g b1 show ?thesis
      by (auto simp: cmd_import_def intro!: exI [of _ "db s"])
  next
    case (Inr cols)
    obtain r2 b2 where l: "import_loop (entries_of file_data) cols b1 = (r2, b2)"
      by (cases "import_loop (entries_of file_data) cols b1") auto
    from import_loop_frame [OF l] b1 have "failing b2 = failing (db s)" "ranking b2 = ranking (db s)"
      by auto
    with True g Inr l show ?thesis
      by (cases r2) (auto simp: cmd_import_def)
  qed
qed

lemma cmd_import_fields:
  "collection (snd (step (CmdImport file_data) s)) = collection s"
  "id_map (snd (step (CmdImport file_data) s)) = id_map s"
  "failing (db (snd (step (CmdImport file_data) s))) = failing (db s)"
  "ranking (db (snd (step (CmdImport file_data) s))) = ranking (db s)"
  using cmd_import_session [of file_data s] by (auto simp del: step.simps)

lemma stale_session_collection:
  "collection (stale_session ''bge-base'') = ''bge_base_imported_data''"
  "collection (stale_session ''e5-large'') = ''e5_large_imported_data''"
  by (simp_all add: stale_session_def start_session_def resolve_embedding_model_def model_map_def)

lemma stale_session_failing: "failing (db (stale_session em)) name op = False"
  by (simp add: stale_session_db backend_with_def no_faults_def)

text \<open>Claim C2's theorem at the one-entry file, listing the second BGE collection.\<close>

theorem imported_fact_listed_formatted_witness:
  "step (CmdImport refund_file) (stale_session ''bge-base'') =
     (Imported 1, snd (step (CmdImport refund_file) (stale_session ''bge-base''))) \<and>
   display_stored_facts (db (snd (step (CmdImport refund_file) (stale_session ''bge-base''))))
       ''bge_large_imported_data'' =
     Inr ([(1, ''refund window is 30 days'', [(''source'', JStr ''faq'')])], [(1, ''f1'')]) \<and>
   text_of (entries_of refund_file ! 0) = Inr ''refund window is 30 days''"
proof -
  let ?s' = "snd (step (CmdImport refund_file) (stale_session ''bge-base''))"
  have run: "step (CmdImport refund_file) (stale_session ''bge-base'') = (Imported 1, ?s')"
    by (rule refund_run(1))
  have m: "(''bge_large_imported_data'', ''BAAI/bge-large-en-v1.5'') \<in> set model_set"
    by (simp add: model_set_eq)
  have d: "display_stored_facts (db ?s') ''bge_large_imported_data'' =
     Inr ([(1, ''refund window is 30 days'', [(''source'', JStr ''faq'')])], [(1, ''f1'')])"
    by (simp add: display_stored_facts_def col_get_def cmd_import_fields stale_session_failing
        refund_run(2) model_set_eq items_for_def format_document_model_set item_id_def
        enumerate_eq_zip del: step.simps)
  from imported_fact_listed_formatted [OF run m _ d, of 0]
  have "text_of (entries_of refund_file ! 0) = Inr ''refund window is 30 days''"
    by auto
  with run d show ?thesis by (simp del: step.simps)
qed

lemma refund_first_text:
  "text_of (entries_of refund_file ! 0) = Inr ''refund window is 30 days''"
  by (simp add: refund_file_def entries_of_def text_of_def entry_get_def)

text \<open>
  Claim C2 as stated fails: in a session on the E5 model, the listing after a successful
  import shows \<open>passage: \<close> in front of the text that was imported.
\<close>

theorem e5_listing_shows_prefixed_document:
  "fst (step (CmdImport refund_file) (stale_session ''e5-large'')) = Imported 1 \<and>
   text_of (entries_of refund_file ! 0) = Inr ''refund window is 30 days'' \<and>
   fst (step CmdList (snd (step (CmdImport refund_file) (stale_session ''e5-large'')))) =
     Listed [(1, ''passage: refund window is 30 days'', [(''source'', JStr ''faq'')])]"
  by (simp add: refund_run(2,3) cmd_list_def display_stored_facts_def col_get_def
      cmd_import_fields stale_session_failing stale_session_collection
      model_set_eq items_for_def format_document_model_set item_id_def enumerate_eq_zip
      refund_first_text del: step.simps(4))

section \<open>Deletion by ordinal and cross-collection consistency\<close>

lemma open_collections_clear:
  "open_collections True ms b = (Inr cols, b') \<Longrightarrow>
   cols = map (\<lambda>model. case resolve_embedding_model model of
            (mname, pfx) \<Rightarrow> (pfx @ ''imported_data'', mname)) ms \<and>
   failing b' = failing b \<and> ranking b' = ranking b \<and>
   (\<forall>name. store b' name = (if name \<in> fst ` set cols then [] else store b name))"
proof (induction ms arbitrary: b cols)
  case Nil
  then show ?case by auto
next
  case (Cons model ms)
  obtain mname pfx where r: "resolve_embedding_model model = (mname, pfx)"
    by (cases "resolve_embedding_model model") auto
  let ?c = "pfx @ ''imported_data''"
  from Cons.prems r obtain n b1 where c: "clear_existing ?c b = (Inr n, b1)"
    by (auto simp: get_or_create_collection_def split: if_splits sum.splits prod.splits)
  from Cons.prems r c obtain rest where
    o: "open_collections True ms b1 = (Inr rest, b')" and cols: "cols = (?c, mname) # rest"
    by (auto simp: get_or_create_collection_def split: if_splits sum.splits prod.splits)
  from Cons.IH [OF o] clear_existing_ok [OF c] cols r show ?case by auto
qed

lemma get_all_collections_clear:
  "get_all_collections_for_type True b = (Inr cols, b') \<Longrightarrow>
   cols = model_set \<and> failing b' = failing b \<and> ranking b' = ranking b \<and>
   (\<forall>name. store b' name = (if name \<in> fst ` set model_set then [] else store b name))"
  unfolding get_all_collections_for_type_def model_set_def
  by (drule open_collections_clear) simp

lemma delete_loop_ok:
  "delete_loop uid cols b = (None, b') \<Longrightarrow>
   failing b' = failing b \<and> ranking b' = ranking b \<and>
   (\<forall>name. store b' name =
      (if name \<in> fst ` set cols then filter (\<lambda>it. item_id it \<noteq> uid) (store b name)
       else store b name))"
proof (induction cols arbitrary: b)
  case Nil
  then show ?case by simp
next
  case (Cons c cols)
  obtain col m where c: "c = (col, m)" by (cases c) auto
  from Cons.prems c obtain b1 where d: "col_delete b col [uid] = Inr b1"
    and l: "delete_loop uid cols b1 = (None, b')"
    by (auto split: sum.splits)
  from d have b1: "failing b1 = failing b" "ranking b1 = ranking b"
    "store b1 = (store b)(col := filter (\<lambda>it. item_id it \<noteq> uid) (store b col))"
    by (auto simp: col_delete_def split: if_splits)
  from Cons.IH [OF l] b1 c show ?case by auto
qed

lemma cmd_delete_ok:
  assumes "step (CmdDeleteOrdinal k) s = (Deleted k', s')"
  shows "k' = k \<and> (\<exists>uid. map_of (id_map s) k = Some uid) \<and>
         id_map s' = filter (\<lambda>(i, v). i \<noteq> k) (id_map s) \<and>
         collection s' = collection s \<and>
         failing (db s') = failing (db s) \<and> ranking (db s') = ranking (db s) \<and>
         (\<forall>name. store (db s') name =
            (if name \<in> fst ` set model_set then [] else store (db s) name))"
proof -
  from assms obtain uid where u: "map_of (id_map s) k = Some uid"
    by (auto simp: cmd_delete_ordinal_def split: option.splits)
  from assms u obtain cols b1 where g: "get_all_collections_for_type True (db s) = (Inr cols, b1)"
    by (auto simp: cmd_delete_ordinal_def split: prod.splits sum.splits option.splits)
  obtain r b2 where l0: "delete_loop uid cols b1 = (r, b2)"
    by (cases "delete_loop uid cols b1") auto
  from assms u g l0 have r: "r = None"
    by (cases r) (simp_all add: cmd_delete_ordinal_def)
  from assms u g l0 r have k: "k' = k"
    and s': "s' = s\<lparr>db := b2, id_map := filter (\<lambda>(i, v). i \<noteq> k) (id_map s)\<rparr>"
    by (auto simp: cmd_delete_ordinal_def)
  from l0 r have l: "delete_loop uid cols b1 = (None, b2)" by simp
  from get_all_collections_clear [OF g] have c: "cols = model_set"
    "failing b1 = failing (db s)" "ranking b1 = ranking (db s)"
    "\<And>name. store b1 name = (if name \<in> fst ` set model_set then [] else store (db s) name)"
    by auto
  from delete_loop_ok [OF l] c have d: "failing b2 = failing (db s)" "ranking b2 = ranking (db s)"
    "\<And>name. store b2 name = (if name \<in> fst ` set model_set then [] else store (db s) name)"
    by auto
  from u k d show ?thesis by (simp add: s')
qed

text \<open>
  Claim C1, as amended. After a successful import, and after a successful deletion by
  ordinal, any two collections of the model set hold the same ids in the same order with
  the same metadata, and their documents are the same texts formatted for the respective
  model in document mode: equal between the two BGE collections, prefixed with
  \<open>passage: \<close> in the E5 collection.
\<close>

theorem synchronized_collections_agree:
  assumes "step (CmdImport file_data) s = (Imported n, s') \<or>
           step (CmdDeleteOrdinal k) s = (Deleted k, s')"
    and "(c1, m1) \<in> set model_set" and "(c2, m2) \<in> set model_set"
  shows "map item_id (store (db s') c1) = map item_id (store (db s') c2) \<and>
         map (\<lambda>it. snd (snd it)) (store (db s') c1) =
           map (\<lambda>it. snd (snd it)) (store (db s') c2) \<and>
         (\<exists>texts.
            map (\<lambda>it. fst (snd it)) (store (db s') c1) =
              map (\<lambda>t. format_for_embedding t m1 ''document'') texts \<and>
            map (\<lambda>it. fst (snd it)) (store (db s') c2) =
              map (\<lambda>t. format_for_embedding t m2 ''document'') texts)"
  using assms(1)
proof
  assume "step (CmdImport file_data) s = (Imported n, s')"
  from cmd_import_ok [OF this] obtain ids texts metas where
    t: "try_map id_of (entries_of file_data) = Inr ids"
       "try_map text_of (entries_of file_data) = Inr texts"
       "try_map metadata_of (entries_of file_data) = Inr metas"
    and st: "\<And>name. store (db s') name =
              (case map_of model_set name of
                 Some m \<Rightarrow> items_for m ids texts metas
               | None \<Rightarrow> store (db s) name)"
    by blast
  have len: "length texts = length ids" "length metas = length ids"
    using t by (auto dest!: try_map_length)
  from st assms(2,3) have "store (db s') c1 = items_for m1 ids texts metas"
    "store (db s') c2 = items_for m2 ids texts metas"
    by (simp_all add: model_set_map_of)
  with items_for_parts [OF len] show ?thesis by auto
next
  assume "step (CmdDeleteOrdinal k) s = (Deleted k, s')"
  from cmd_delete_ok [OF this] assms(2,3)
  have "store (db s') c1 = []" "store (db s') c2 = []" by force+
  then show ?thesis by simp
qed

text \<open>The BGE base and the E5 collection after the import of the one-entry file.\<close>

theorem synchronized_collections_agree_witness:
  "step (CmdImport refund_file) (stale_session ''bge-base'') =
     (Imported 1, snd (step (CmdImport refund_file) (stale_session ''bge-base''))) \<and>
   (''bge_base_imported_data'', ''BAAI/bge-base-en-v1.5'') \<in> set model_set \<and>
   (''e5_large_imported_data'', ''intfloat/e5-large-v2'') \<in> set model_set \<and>
   map item_id (store (db (snd (step (CmdImport refund_file) (stale_session ''bge-base''))))
       ''bge_base_imported_data'') =
   map item_id (store (db (snd (step (CmdImport refund_file) (stale_session ''bge-base''))))
       ''e5_large_imported_data'') \<and>
   map (\<lambda>it. snd (snd it))
     (store (db (snd (step (CmdImport refund_file) (stale_session ''bge-base''))))
       ''bge_base_imported_data'') =
   map (\<lambda>it. snd (snd it))
     (store (db (snd (step (CmdImport refund_file) (stale_session ''bge-base''))))
       ''e5_large_imported_data'')"
proof -
  let ?s' = "snd (step (CmdImport refund_file) (stale_session ''bge-base''))"
  have run: "step (CmdImport refund_file) (stale_session ''bge-base'') = (Imported 1, ?s') \<or>
      step (CmdDeleteOrdinal 0) (stale_session ''bge-base'') = (Deleted 0, ?s')"
    using refund_run(1) by blast
  have m1: "(''bge_base_imported_data'', ''BAAI/bge-base-en-v1.5'') \<in> set model_set"
    and m2: "(''e5_large_imported_data'', ''intfloat/e5-large-v2'') \<in> set model_set"
    by (simp_all add: model_set_eq)
  from synchronized_collections_agree [OF run m1 m2] refund_run(1) [of "''bge-base''"] m1 m2
  show ?thesis by blast
qed

text \<open>
  Claim C1 as stated fails: after a successful import the fact \<open>f1\<close> is in the BGE base
  collection with its text, and the E5 collection holds the same id with another text.
\<close>

theorem e5_collection_text_differs:
  "fst (step (CmdImport refund_file) (stale_session ''bge-base'')) = Imported 1 \<and>
   (''f1'', ''refund window is 30 days'', [(''source'', JStr ''faq'')]) \<in>
     set (store (db (snd (step (CmdImport refund_file) (stale_session ''bge-base''))))
            ''bge_base_imported_data'') \<and>
   (''f1'', ''refund window is 30 days'', [(''source'', JStr ''faq'')]) \<notin>
     set (store (db (snd (step (CmdImport refund_file) (stale_session ''bge-base''))))
            ''e5_large_imported_data'') \<and>
   store (db (snd (step (CmdImport refund_file) (stale_session ''bge-base''))))
      ''e5_large_imported_data'' =
     [(''f1'', ''passage: refund window is 30 days'', [(''source'', JStr ''faq'')])]"
  by (simp add: refund_run(2,3) model_set_eq items_for_def format_document_model_set
      del: step.simps)

lemma get_all_collections_clear_run:
  assumes "\<forall>(col, m) \<in> set model_set. \<forall>op. \<not> failing b col op"
  shows "\<exists>b'. get_all_collections_for_type True b = (Inr model_set, b')"
proof -
  have c: "\<And>col b. \<forall>op. \<not> failing b col op \<Longrightarrow>
      clear_existing col b = (Inr (length (store b col)),
         if store b col = [] then b
         else b\<lparr>store := (store b)(col := filter (\<lambda>it. item_id it \<notin> set (map item_id (store b col))) (store b col))\<rparr>)"
    by (simp add: clear_existing_def col_get_def col_delete_def Let_def)
  from assms show ?thesis
    by (simp add: get_all_collections_for_type_def models_def resolve_embedding_model_def
        model_map_def get_or_create_collection_def model_set_eq c)
qed

lemma delete_loop_run:
  "\<forall>(col, m) \<in> set cols. \<forall>op. \<not> failing b col op \<Longrightarrow>
   \<exists>b'. delete_loop uid cols b = (None, b')"
proof (induction cols arbitrary: b)
  case Nil
  then show ?case by simp
next
  case (Cons c cols)
  obtain col m where c: "c = (col, m)" by (cases c) auto
  from Cons.prems c obtain b1 where d: "col_delete b col [uid] = Inr b1" and
    f: "failing b1 = failing b"
    by (auto simp: col_delete_def)
  from Cons.prems f have "\<forall>(col, m) \<in> set cols. \<forall>op. \<not> failing b1 col op" by auto
  from Cons.IH [OF this] d c show ?case by simp
qed

lemma cmd_delete_run:
  assumes "map_of (id_map s) k = Some uid"
    and "\<forall>(col, m) \<in> set model_set. \<forall>op. \<not> failing (db s) col op"
  shows "fst (step (CmdDeleteOrdinal k) s) = Deleted k"
proof -
  from get_all_collections_clear_run [OF assms(2)] obtain b1 where
    g: "get_all_collections_for_type True (db s) = (Inr model_set, b1)" by blast
  from get_all_collections_clear [OF g] assms(2)
  have "\<forall>(col, m) \<in> set model_set. \<forall>op. \<not> failing b1 col op" by simp
  from delete_loop_run [OF this] obtain b2 where "delete_loop uid model_set b1 = (None, b2)"
    by blast
  with assms(1) g show ?thesis by (simp add: cmd_delete_ordinal_def)
qed

lemma two_fact_session_fields:
  "collection two_fact_session = ''bge_base_imported_data''"
  "id_map two_fact_session = []"
  "db two_fact_session = backend_with [old_fact, second_fact] no_faults"
  by (simp_all add: two_fact_session_def start_session_bge_base)

lemma two_fact_listing:
  "step CmdList two_fact_session =
     (Listed [(1, ''stale'', [(''source'', JStr ''user'')]),
              (2, ''fresh'', [(''source'', JStr ''user'')])],
      two_fact_session\<lparr>id_map := [(1, ''fact_1''), (2, ''fact_2'')]\<rparr>)"
  by (simp add: cmd_list_def display_stored_facts_def col_get_def two_fact_session_fields
      backend_with_def no_faults_def model_set_eq old_fact_def second_fact_def item_id_def
      enumerate_eq_zip)

text \<open>
  Claim C3 at a concrete session. The listing numbers two facts; \<open>-1\<close> then reports the
  deletion of fact 1, and afterwards all three collections of the model set are empty:
  the second fact, which was not named, is gone as well, while its ordinal stays in the
  index map. The call \<open>get_all_collections_for_type(clear_collections=True)\<close> in the
  \<open>-N\<close> branch clears every collection before the one id is deleted.
\<close>

theorem delete_by_ordinal_clears_other_facts:
  "step CmdList two_fact_session =
     (Listed [(1, ''stale'', [(''source'', JStr ''user'')]),
              (2, ''fresh'', [(''source'', JStr ''user'')])],
      two_fact_session\<lparr>id_map := [(1, ''fact_1''), (2, ''fact_2'')]\<rparr>) \<and>
   second_fact \<in> set (store (db two_fact_session) ''bge_base_imported_data'') \<and>
   fst (step (CmdDeleteOrdinal 1)
          (two_fact_session\<lparr>id_map := [(1, ''fact_1''), (2, ''fact_2'')]\<rparr>)) = Deleted 1 \<and>
   store (db (snd (step (CmdDeleteOrdinal 1)
          (two_fact_session\<lparr>id_map := [(1, ''fact_1''), (2, ''fact_2'')]\<rparr>))))
      ''bge_base_imported_data'' = [] \<and>
   store (db (snd (step (CmdDeleteOrdinal 1)
          (two_fact_session\<lparr>id_map := [(1, ''fact_1''), (2, ''fact_2'')]\<rparr>))))
      ''bge_large_imported_data'' = [] \<and>
   store (db (snd (step (CmdDeleteOrdinal 1)
          (two_fact_session\<lparr>id_map := [(1, ''fact_1''), (2, ''fact_2'')]\<rparr>))))
      ''e5_large_imported_data'' = [] \<and>
   id_map (snd (step (CmdDeleteOrdinal 1)
          (two_fact_session\<lparr>id_map := [(1, ''fact_1''), (2, ''fact_2'')]\<rparr>))) =
     [(2, ''fact_2'')]"
proof -
  let ?s = "two_fact_session\<lparr>id_map := [(1, ''fact_1''), (2, ''fact_2'')]\<rparr>"
  have f: "\<forall>(col, m) \<in> set model_set. \<forall>op. \<not> failing (db ?s) col op"
    by (simp add: two_fact_session_fields backend_with_def no_faults_def)
  have d: "fst (step (CmdDeleteOrdinal 1) ?s) = Deleted 1"
    by (rule cmd_delete_run [OF _ f]) simp
  then have run: "step (CmdDeleteOrdinal 1) ?s = (Deleted 1, snd (step (CmdDeleteOrdinal 1) ?s))"
    by (metis prod.collapse)
  from cmd_delete_ok [OF run] d two_fact_listing show ?thesis
    by (simp add: model_set_eq two_fact_session_fields backend_with_def second_fact_def
        del: step.simps)
qed

section \<open>The index map\<close>

lemma map_of_enumerate:
  "map_of (enumerate n xs) k =
     (if n \<le> k \<and> k < n + length xs then Some (xs ! (k - n)) else None)"
proof (induction xs arbitrary: n)
  case Nil
  then show ?case by simp
next
  case (Cons x xs)
  show ?case
  proof (cases "k = n")
    case True
    then show ?thesis by simp
  next
    case False
    then show ?thesis
      using Cons.IH [of "Suc n"] by (auto simp: Suc_diff_le nth_Cons')
  qed
qed

lemma id_map_of_listing:
  "map_of (map (\<lambda>(idx, (uid, doc, meta)). (idx, uid)) (enumerate 1 results)) k =
     (if 1 \<le> k \<and> k \<le> length results then Some (item_id (results ! (k - 1))) else None)"
proof -
  have e: "(\<lambda>(idx, (uid, doc, meta)). (idx, uid)) =
           (\<lambda>(idx, it :: item). (idx, item_id it))"
    by (auto simp: item_id_def fun_eq_iff)
  show ?thesis
    unfolding e by (auto simp: map_of_map map_of_enumerate)
qed

lemma cmd_list_ok:
  assumes "step CmdList s = (Listed shown, s')"
  shows "db s' = db s \<and> collection s' = collection s \<and>
         col_get (db s) (collection s) = Inr (store (db s) (collection s)) \<and>
         shown = map (\<lambda>(idx, (uid, doc, meta)). (idx, doc, meta))
                   (enumerate 1 (store (db s) (collection s))) \<and>
         id_map s' = map (\<lambda>(idx, (uid, doc, meta)). (idx, uid))
                   (enumerate 1 (store (db s) (collection s)))"
  using assms
  by (auto simp: cmd_list_def display_stored_facts_def col_get_def
      split: sum.splits if_splits prod.splits)

lemma cmd_query_session: "snd (step (CmdQuery q n) s) = s"
  by (simp add: cmd_query_def Let_def split: sum.splits)

text \<open>
  Claim C9, as amended. Listing is what produces the index map: when the listing shows
  the records of the session's collection numbered from 1 in the service's order, the
  new map sends each ordinal \<open>k\<close> between 1 and the number of records to the id of the
  \<open>k\<close>-th record shown, and has no other ordinal. A query changes nothing in the session,
  the index map included. A deletion by an ordinal that is not in the current map answers
  with the warning and changes nothing; a successful deletion by ordinal has resolved the
  ordinal through the current map to an id, which is then in no collection of the model
  set.
\<close>

theorem index_map_from_listing_only:
  "(step CmdList s = (Listed shown, s') \<longrightarrow>
      (\<exists>results. col_get (db s) (collection s) = Inr results \<and> db s' = db s \<and>
         length shown = length results \<and>
         (\<forall>k. 1 \<le> k \<and> k \<le> length results \<longrightarrow>
            shown ! (k - 1) = (k, snd (results ! (k - 1))) \<and>
            map_of (id_map s') k = Some (item_id (results ! (k - 1)))) \<and>
         (\<forall>k. k = 0 \<or> length results < k \<longrightarrow> map_of (id_map s') k = None))) \<and>
   snd (step (CmdQuery q n) s) = s \<and>
   (map_of (id_map s) k1 = None \<longrightarrow>
      step (CmdDeleteOrdinal k1) s = (NoFactWithIndex k1, s)) \<and>
   (step (CmdDeleteOrdinal k2) s = (Deleted k2, s'') \<longrightarrow>
      (\<exists>uid. map_of (id_map s) k2 = Some uid \<and>
         (\<forall>(col, m) \<in> set model_set. uid \<notin> item_id ` set (store (db s'') col))))"
proof (intro conjI impI)
  assume l: "step CmdList s = (Listed shown, s')"
  let ?r = "store (db s) (collection s)"
  from cmd_list_ok [OF l] have
    g: "col_get (db s) (collection s) = Inr ?r" and d: "db s' = db s" and
    sh: "shown = map (\<lambda>(idx, (uid, doc, meta)). (idx, doc, meta)) (enumerate 1 ?r)" and
    im: "id_map s' = map (\<lambda>(idx, (uid, doc, meta)). (idx, uid)) (enumerate 1 ?r)"
    by auto
  have "\<forall>k. 1 \<le> k \<and> k \<le> length ?r \<longrightarrow>
            shown ! (k - 1) = (k, snd (?r ! (k - 1))) \<and>
            map_of (id_map s') k = Some (item_id (?r ! (k - 1)))"
    unfolding sh im id_map_of_listing
    by (auto simp: nth_enumerate_eq split: prod.splits)
  moreover have "\<forall>k. k = 0 \<or> length ?r < k \<longrightarrow> map_of (id_map s') k = None"
    unfolding im id_map_of_listing by auto
  moreover have "length shown = length ?r" unfolding sh by simp
  ultimately show "\<exists>results. col_get (db s) (collection s) = Inr results \<and> db s' = db s \<and>
         length shown = length results \<and>
         (\<forall>k. 1 \<le> k \<and> k \<le> length results \<longrightarrow>
            shown ! (k - 1) = (k, snd (results ! (k - 1))) \<and>
            map_of (id_map s') k = Some (item_id (results ! (k - 1)))) \<and>
         (\<forall>k. k = 0 \<or> length results < k \<longrightarrow> map_of (id_map s') k = None)"
    using g d by blast
next
  show "snd (step (CmdQuery q n) s) = s" by (rule cmd_query_session)
next
  assume "map_of (id_map s) k1 = None"
  then show "step (CmdDeleteOrdinal k1) s = (NoFactWithIndex k1, s)"
    by (simp add: cmd_delete_ordinal_def)
next
  assume "step (CmdDeleteOrdinal k2) s = (Deleted k2, s'')"
  from cmd_delete_ok [OF this] obtain uid where u: "map_of (id_map s) k2 = Some uid"
    and e: "\<And>name. store (db s'') name =
              (if name \<in> fst ` set model_set then [] else store (db s) name)"
    by blast
  have "\<forall>(col, m) \<in> set model_set. store (db s'') col = []"
    by (force simp: e)
  with u show "\<exists>uid. map_of (id_map s) k2 = Some uid \<and>
         (\<forall>(col, m) \<in> set model_set. uid \<notin> item_id ` set (store (db s'') col))"
    by auto
qed


lemma listed_session_listing:
  "step CmdList (two_fact_session\<lparr>id_map := [(1, ''fact_1''), (2, ''fact_2'')]\<rparr>) =
     (Listed [(1, ''stale'', [(''source'', JStr ''user'')]),
              (2, ''fresh'', [(''source'', JStr ''user'')])],
      two_fact_session\<lparr>id_map := [(1, ''fact_1''), (2, ''fact_2'')]\<rparr>)"
  by (simp add: cmd_list_def display_stored_facts_def col_get_def two_fact_session_fields
      backend_with_def no_faults_def model_set_eq old_fact_def second_fact_def item_id_def
      enumerate_eq_zip)

lemma listed_session_delete:
  "step (CmdDeleteOrdinal 1) (two_fact_session\<lparr>id_map := [(1, ''fact_1''), (2, ''fact_2'')]\<rparr>) =
     (Deleted 1,
      snd (step (CmdDeleteOrdinal 1)
             (two_fact_session\<lparr>id_map := [(1, ''fact_1''), (2, ''fact_2'')]\<rparr>)))"
proof -
  let ?s = "two_fact_session\<lparr>id_map := [(1, ''fact_1''), (2, ''fact_2'')]\<rparr>"
  have f: "\<forall>(col, m) \<in> set model_set. \<forall>op. \<not> failing (db ?s) col op"
    by (simp add: two_fact_session_fields backend_with_def no_faults_def)
  have "fst (step (CmdDeleteOrdinal 1) ?s) = Deleted 1"
    by (rule cmd_delete_run [OF _ f]) simp
  then show ?thesis by (metis prod.collapse)
qed

text \<open>The session after a listing of two facts: ordinals 1 and 2 are mapped, 3 is not.\<close>

theorem index_map_from_listing_only_witness:
  "step CmdList (two_fact_session\<lparr>id_map := [(1, ''fact_1''), (2, ''fact_2'')]\<rparr>) =
     (Listed [(1, ''stale'', [(''source'', JStr ''user'')]),
              (2, ''fresh'', [(''source'', JStr ''user'')])],
      two_fact_session\<lparr>id_map := [(1, ''fact_1''), (2, ''fact_2'')]\<rparr>) \<and>
   map_of (id_map (two_fact_session\<lparr>id_map := [(1, ''fact_1''), (2, ''fact_2'')]\<rparr>)) 2 =
     Some ''fact_2'' \<and>
   map_of (id_map (two_fact_session\<lparr>id_map := [(1, ''fact_1''), (2, ''fact_2'')]\<rparr>)) 3 = None \<and>
   step (CmdDeleteOrdinal 3) (two_fact_session\<lparr>id_map := [(1, ''fact_1''), (2, ''fact_2'')]\<rparr>) =
     (NoFactWithIndex 3, two_fact_session\<lparr>id_map := [(1, ''fact_1''), (2, ''fact_2'')]\<rparr>) \<and>
   snd (step (CmdQuery ''fresh'' 8)
          (two_fact_session\<lparr>id_map := [(1, ''fact_1''), (2, ''fact_2'')]\<rparr>)) =
     two_fact_session\<lparr>id_map := [(1, ''fact_1''), (2, ''fact_2'')]\<rparr> \<and>
   step (CmdDeleteOrdinal 1) (two_fact_session\<lparr>id_map := [(1, ''fact_1''), (2, ''fact_2'')]\<rparr>) =
     (Deleted 1,
      snd (step (CmdDeleteOrdinal 1)
             (two_fact_session\<lparr>id_map := [(1, ''fact_1''), (2, ''fact_2'')]\<rparr>))) \<and>
   store (db (snd (step (CmdDeleteOrdinal 1)
             (two_fact_session\<lparr>id_map := [(1, ''fact_1''), (2, ''fact_2'')]\<rparr>))))
      ''e5_large_imported_data'' = []"
proof -
  let ?s = "two_fact_session\<lparr>id_map := [(1, ''fact_1''), (2, ''fact_2'')]\<rparr>"
  let ?shown = "[(1, ''stale'', [(''source'', JStr ''user'')]),
                 (2, ''fresh'', [(''source'', JStr ''user'')])]"
  let ?s'' = "snd (step (CmdDeleteOrdinal 1) ?s)"
  note t = index_map_from_listing_only [of ?s ?shown ?s "''fresh''" 8 3 1 ?s'']
  have n: "map_of (id_map ?s) 3 = None" by simp
  from t listed_session_listing have "map_of (id_map ?s) 2 = Some ''fact_2''" by simp
  moreover from t n have "step (CmdDeleteOrdinal 3) ?s = (NoFactWithIndex 3, ?s)" by blast
  moreover from t have "snd (step (CmdQuery ''fresh'' 8) ?s) = ?s" by blast
  moreover from t listed_session_delete
  have "\<forall>(col, m) \<in> set model_set. ''fact_1'' \<notin> item_id ` set (store (db ?s'') col)"
    by (simp del: step.simps)
  moreover from cmd_delete_ok [OF listed_session_delete]
  have "store (db ?s'') ''e5_large_imported_data'' = []"
    by (simp add: model_set_eq)
  ultimately show ?thesis
    using listed_session_listing listed_session_delete n by (simp del: step.simps)
qed

text \<open>
  Claim C9 as stated fails for queries: in a fresh session a query displays two results
  numbered 1 and 2, the index map is still empty afterwards, and \<open>-1\<close> answers with the
  warning instead of deleting the first result displayed.
\<close>

theorem query_leaves_index_map_empty:
  "id_map two_fact_session = [] \<and>
   step (CmdQuery ''fresh'' 8) two_fact_session =
     (Matches [(1, old_fact), (2, second_fact)], two_fact_session) \<and>
   step (CmdDeleteOrdinal 1) two_fact_session = (NoFactWithIndex 1, two_fact_session) \<and>
   store (db two_fact_session) ''bge_base_imported_data'' = [old_fact, second_fact]"
  by (simp add: cmd_query_def cmd_delete_ordinal_def col_query_def filter_results_def
      skipped_def two_fact_session_def start_session_bge_base backend_with_def no_faults_def
      stored_order_def model_set_eq old_fact_def second_fact_def enumerate_eq_zip Let_def)

section \<open>A failing import\<close>

lemma distinct_later:
  assumes "distinct (map fst (pre @ (col, m) # post))" and "(c, m') \<in> set post"
  shows "c \<notin> fst ` set pre" and "c \<noteq> col"
proof -
  from assms(2) have c: "c \<in> fst ` set post" by (rule rev_image_eqI) simp
  from assms(1) have "fst ` set pre \<inter> fst ` set ((col, m) # post) = {}"
    and "col \<notin> fst ` set post"
    by simp_all
  with c show "c \<notin> fst ` set pre" and "c \<noteq> col" by auto
qed

lemma distinct_earlier:
  assumes "distinct (map fst (pre @ (col, m) # post))" and "(c, m') \<in> set pre"
  shows "c \<noteq> col" and "map_of pre c = Some m'" and "distinct (map fst pre)"
proof -
  from assms(2) have c: "c \<in> fst ` set pre" by (rule rev_image_eqI) simp
  from assms(1) have i: "fst ` set pre \<inter> fst ` set ((col, m) # post) = {}"
    and d: "distinct (map fst pre)"
    by simp_all
  from c i show "c \<noteq> col" by auto
  from d assms(2) show "map_of pre c = Some m'" by simp
  from d show "distinct (map fst pre)" .
qed

lemma cmd_import_fails_at:
  assumes "validate_file_structure file_data"
    and "get_all_collections_for_type False (db s) = (Inr (pre @ (col, m) # post), b0)"
    and "import_loop (entries_of file_data) pre b0 = (None, b1)"
    and "import_into (entries_of file_data) col m b1 = (Some e, b2)"
  shows "step (CmdImport file_data) s = (Failed e, s\<lparr>db := b2\<rparr>)"
    and "\<forall>(c, m') \<in> set post. store b2 c = store (db s) c"
    and "try_map id_of (entries_of file_data) = Inr ids \<Longrightarrow>
         try_map text_of (entries_of file_data) = Inr texts \<Longrightarrow>
         try_map metadata_of (entries_of file_data) = Inr metas \<Longrightarrow>
         \<forall>(c, m') \<in> set pre. store b2 c = items_for m' ids texts metas"
proof -
  from get_all_collections_no_clear [OF assms(2)]
  have b0: "b0 = db s" and ms: "pre @ (col, m) # post = model_set" by auto
  have d: "distinct (map fst (pre @ (col, m) # post))"
    unfolding ms by (simp add: model_set_eq)
  have l: "import_loop (entries_of file_data) (pre @ (col, m) # post) b0 = (Some e, b2)"
    unfolding import_loop_append using assms(3,4) by simp
  show "step (CmdImport file_data) s = (Failed e, s\<lparr>db := b2\<rparr>)"
    unfolding step.simps cmd_import_def using assms(1) by (simp add: assms(2) l)
  show "\<forall>(c, m') \<in> set post. store b2 c = store (db s) c"
  proof (clarify)
    fix c m' assume "(c, m') \<in> set post"
    from distinct_later [OF d this] have "c \<notin> fst ` set pre" "c \<noteq> col" .
    with import_loop_frame [OF assms(3)] import_into_frame [OF assms(4)] b0
    show "store b2 c = store (db s) c" by simp
  qed
  assume t: "try_map id_of (entries_of file_data) = Inr ids"
    "try_map text_of (entries_of file_data) = Inr texts"
    "try_map metadata_of (entries_of file_data) = Inr metas"
  show "\<forall>(c, m') \<in> set pre. store b2 c = items_for m' ids texts metas"
  proof (clarify)
    fix c m' assume in_pre: "(c, m') \<in> set pre"
    note e = distinct_earlier [OF d in_pre]
    from import_loop_ok [OF assms(3) e(3) t] e(2)
    have "store b1 c = items_for m' ids texts metas" by simp
    with import_into_frame [OF assms(4)] e(1)
    show "store b2 c = items_for m' ids texts metas" by simp
  qed
qed

text \<open>
  Claim C4, as amended. When the import has succeeded on the collections \<open>pre\<close> and fails on
  the next collection, the command answers with that one error for the whole fan-out and
  the state is the state at the failure: the collections before the failing one hold the
  imported records, and the collections after it were not attempted and hold what they
  held before.
\<close>

theorem import_stops_at_first_failure:
  assumes "validate_file_structure file_data"
    and "get_all_collections_for_type False (db s) = (Inr (pre @ (col, m) # post), b0)"
    and "import_loop (entries_of file_data) pre b0 = (None, b1)"
    and "import_into (entries_of file_data) col m b1 = (Some e, b2)"
  shows "step (CmdImport file_data) s = (Failed e, s\<lparr>db := b2\<rparr>) \<and>
         (\<forall>(c, m') \<in> set post. store b2 c = store (db s) c) \<and>
         (\<forall>ids texts metas.
            try_map id_of (entries_of file_data) = Inr ids \<and>
            try_map text_of (entries_of file_data) = Inr texts \<and>
            try_map metadata_of (entries_of file_data) = Inr metas \<longrightarrow>
            (\<forall>(c, m') \<in> set pre. store b2 c = items_for m' ids texts metas))"
  using cmd_import_fails_at [OF assms] by blast

lemma import_into_add_fails:
  assumes "try_map id_of fd = Inr ids" "try_map text_of fd = Inr texts"
    "try_map metadata_of fd = Inr metas"
    and "\<not> failing b col OpGet" "\<not> failing b col OpDelete" "failing b col OpAdd"
  shows "fst (import_into fd col m b) = Some (BackendError col OpAdd)"
    and "store (snd (import_into fd col m b)) = (store b)(col := [])"
proof -
  from assms(4,5) have "\<exists>n b1. clear_existing col b = (Inr n, b1)"
    by (simp add: clear_existing_def col_get_def col_delete_def Let_def)
  then obtain n b1 where c: "clear_existing col b = (Inr n, b1)" by blast
  from clear_existing_ok [OF c] assms(6) have f: "failing b1 col OpAdd"
    and s: "store b1 = (store b)(col := [])" by simp_all
  from c f assms(1,3) try_map_doc_of_text [OF assms(2), of m]
  have "import_into fd col m b = (Some (BackendError col OpAdd), b1)"
    by (simp add: import_into_def col_add_def)
  with s show "fst (import_into fd col m b) = Some (BackendError col OpAdd)"
    and "store (snd (import_into fd col m b)) = (store b)(col := [])" by simp_all
qed


lemma faulty_session_fields:
  "db faulty_session = backend_with [old_fact] (add_fails_on ''bge_large_imported_data'')"
  "failing (db faulty_session) = add_fails_on ''bge_large_imported_data''"
  "store (db faulty_session) ''bge_base_imported_data'' = [old_fact]"
  "store (db faulty_session) ''bge_large_imported_data'' = [old_fact]"
  "store (db faulty_session) ''e5_large_imported_data'' = [old_fact]"
  by (simp_all add: faulty_session_def start_session_bge_base backend_with_def model_set_eq)

lemma faulty_import_steps:
  assumes "try_map id_of fd = Inr ids" "try_map text_of fd = Inr texts"
    "try_map metadata_of fd = Inr metas" "distinct ids" "fd \<noteq> []"
  defines "b1 \<equiv> snd (import_loop fd [(''bge_base_imported_data'', ''BAAI/bge-base-en-v1.5'')]
                        (db faulty_session))"
  defines "b2 \<equiv> snd (import_into fd ''bge_large_imported_data'' ''BAAI/bge-large-en-v1.5'' b1)"
  shows "get_all_collections_for_type False (db faulty_session) =
           (Inr ([(''bge_base_imported_data'', ''BAAI/bge-base-en-v1.5'')] @
                 (''bge_large_imported_data'', ''BAAI/bge-large-en-v1.5'') #
                 [(''e5_large_imported_data'', ''intfloat/e5-large-v2'')]), db faulty_session)"
    and "import_loop fd [(''bge_base_imported_data'', ''BAAI/bge-base-en-v1.5'')]
           (db faulty_session) = (None, b1)"
    and "import_into fd ''bge_large_imported_data'' ''BAAI/bge-large-en-v1.5'' b1 =
           (Some (BackendError ''bge_large_imported_data'' OpAdd), b2)"
    and "store b2 ''bge_large_imported_data'' = []"
proof -
  show "get_all_collections_for_type False (db faulty_session) =
           (Inr ([(''bge_base_imported_data'', ''BAAI/bge-base-en-v1.5'')] @
                 (''bge_large_imported_data'', ''BAAI/bge-large-en-v1.5'') #
                 [(''e5_large_imported_data'', ''intfloat/e5-large-v2'')]), db faulty_session)"
    by (simp add: open_collections_model_set model_set_eq faulty_session_fields(2)
        add_fails_on_def)
  have "\<forall>(col, m) \<in> set [(''bge_base_imported_data'', ''BAAI/bge-base-en-v1.5'')].
          \<forall>op. \<not> failing (db faulty_session) col op"
    by (simp add: faulty_session_fields(2) add_fails_on_def)
  from import_loop_succeeds [OF assms(1-5) this]
  show l: "import_loop fd [(''bge_base_imported_data'', ''BAAI/bge-base-en-v1.5'')]
           (db faulty_session) = (None, b1)"
    unfolding b1_def by (auto simp del: import_loop.simps)
  from import_loop_frame [OF l]
  have f: "failing b1 = add_fails_on ''bge_large_imported_data''"
    by (simp add: faulty_session_fields(2))
  have g: "\<not> failing b1 ''bge_large_imported_data'' OpGet"
    "\<not> failing b1 ''bge_large_imported_data'' OpDelete"
    "failing b1 ''bge_large_imported_data'' OpAdd"
    by (simp_all add: f add_fails_on_def)
  note a = import_into_add_fails [OF assms(1-3) g, of "''BAAI/bge-large-en-v1.5''"]
  from a(1) show "import_into fd ''bge_large_imported_data'' ''BAAI/bge-large-en-v1.5'' b1 =
           (Some (BackendError ''bge_large_imported_data'' OpAdd), b2)"
    unfolding b2_def by (metis prod.collapse)
  from a(2) show "store b2 ''bge_large_imported_data'' = []"
    unfolding b2_def by simp
qed

text \<open>
  The one-entry file on a service whose \<open>add\<close> fails on the second collection: one error,
  the first collection replaced, the third as before.
\<close>

theorem import_stops_at_first_failure_witness:
  "fst (step (CmdImport refund_file) faulty_session) =
     Failed (BackendError ''bge_large_imported_data'' OpAdd) \<and>
   store (db (snd (step (CmdImport refund_file) faulty_session)))
     ''bge_base_imported_data'' =
     [(''f1'', ''refund window is 30 days'', [(''source'', JStr ''faq'')])] \<and>
   store (db (snd (step (CmdImport refund_file) faulty_session)))
     ''e5_large_imported_data'' = [old_fact]"
proof -
  have ne: "entries_of refund_file \<noteq> []" using refund_parts(5) by auto
  have d: "distinct [''f1'']" by simp
  note h = faulty_import_steps [OF refund_parts(2-4) d ne]
  note t = import_stops_at_first_failure [OF refund_parts(1) h(1-3)]
  from t have "step (CmdImport refund_file) faulty_session =
      (Failed (BackendError ''bge_large_imported_data'' OpAdd),
       faulty_session\<lparr>db := snd (import_into (entries_of refund_file)
          ''bge_large_imported_data'' ''BAAI/bge-large-en-v1.5''
          (snd (import_loop (entries_of refund_file)
             [(''bge_base_imported_data'', ''BAAI/bge-base-en-v1.5'')] (db faulty_session))))\<rparr>)"
    by blast
  moreover from t refund_parts(2-4)
  have "store (snd (import_into (entries_of refund_file)
          ''bge_large_imported_data'' ''BAAI/bge-large-en-v1.5''
          (snd (import_loop (entries_of refund_file)
             [(''bge_base_imported_data'', ''BAAI/bge-base-en-v1.5'')] (db faulty_session)))))
          ''bge_base_imported_data'' =
        items_for ''BAAI/bge-base-en-v1.5'' [''f1''] [''refund window is 30 days'']
          [[(''source'', JStr ''faq'')]]"
    by simp
  moreover from t
  have "store (snd (import_into (entries_of refund_file)
          ''bge_large_imported_data'' ''BAAI/bge-large-en-v1.5''
          (snd (import_loop (entries_of refund_file)
             [(''bge_base_imported_data'', ''BAAI/bge-base-en-v1.5'')] (db faulty_session)))))
          ''e5_large_imported_data'' = store (db faulty_session) ''e5_large_imported_data''"
    by simp
  ultimately show ?thesis
    by (simp add: items_for_def format_document_model_set faulty_session_fields(2-5)
        del: step.simps import_loop.simps)
qed

text \<open>
  Claim C4 as stated fails: with an \<open>add\<close> that fails on the second collection only, the
  reply is a single error, and the third collection, on which no call would fail, still
  holds its old fact: it was not attempted.
\<close>

theorem later_collection_not_attempted:
  "fst (step (CmdImport two_facts_file) faulty_session) =
     Failed (BackendError ''bge_large_imported_data'' OpAdd) \<and>
   \<not> failing (db faulty_session) ''e5_large_imported_data'' OpGet \<and>
   \<not> failing (db faulty_session) ''e5_large_imported_data'' OpDelete \<and>
   \<not> failing (db faulty_session) ''e5_large_imported_data'' OpAdd \<and>
   store (db (snd (step (CmdImport two_facts_file) faulty_session)))
     ''bge_base_imported_data'' =
     [(''f1'', ''refund window is 30 days'', [(''source'', JStr ''faq'')]),
      (''f2'', ''orders ship in 2 days'', [(''source'', JStr ''faq'')])] \<and>
   store (db (snd (step (CmdImport two_facts_file) faulty_session)))
     ''bge_large_imported_data'' = [] \<and>
   store (db (snd (step (CmdImport two_facts_file) faulty_session)))
     ''e5_large_imported_data'' = [old_fact]"
proof -
  have ne: "entries_of two_facts_file \<noteq> []" using two_facts_parts(5) by auto
  have d: "distinct [''f1'', ''f2'']" by simp
  note h = faulty_import_steps [OF two_facts_parts(2-4) d ne]
  note t = cmd_import_fails_at [OF two_facts_parts(1) h(1-3)]
  from t(3) [OF two_facts_parts(2-4)]
  have "store (snd (import_into (entries_of two_facts_file)
          ''bge_large_imported_data'' ''BAAI/bge-large-en-v1.5''
          (snd (import_loop (entries_of two_facts_file)
             [(''bge_base_imported_data'', ''BAAI/bge-base-en-v1.5'')] (db faulty_session)))))
          ''bge_base_imported_data'' =
        items_for ''BAAI/bge-base-en-v1.5'' [''f1'', ''f2'']
          [''refund window is 30 days'', ''orders ship in 2 days'']
          [[(''source'', JStr ''faq'')], [(''source'', JStr ''faq'')]]"
    by simp
  moreover from t(2)
  have "store (snd (import_into (entries_of two_facts_file)
          ''bge_large_imported_data'' ''BAAI/bge-large-en-v1.5''
          (snd (import_loop (entries_of two_facts_file)
             [(''bge_base_imported_data'', ''BAAI/bge-base-en-v1.5'')] (db faulty_session)))))
          ''e5_large_imported_data'' = store (db faulty_session) ''e5_large_imported_data''"
    by simp
  ultimately show ?thesis using t(1) h(4)
    by (simp add: items_for_def format_document_model_set faulty_session_fields(2-5)
        add_fails_on_def del: step.simps import_loop.simps)
qed

section \<open>An entry that validation does not reach\<close>

lemma backend_eqI:
  "store b' = store b \<Longrightarrow> failing b' = failing b \<Longrightarrow> ranking b' = ranking b \<Longrightarrow>
   b' = (b :: backend)"
  by (cases b, cases b') simp

lemma missing_metadata_fails:
  assumes "3 < length es" and "es ! 3 = JDict kv" and "map_of kv ''metadata'' = None"
  shows "\<exists>e. try_map metadata_of es = Inl e"
proof -
  from assms(1) have "es ! 3 \<in> set es" by simp
  moreover from assms(2,3) have "metadata_of (es ! 3) = Inl (KeyError ''metadata'')"
    by (simp add: metadata_of_def entry_get_def)
  ultimately show ?thesis by (rule try_map_fails)
qed

text \<open>
  Claim C10, as amended. Validation looks at the first three entries only, so a file whose
  first three entries are complete and whose fourth entry has no \<open>metadata\<close> key passes
  it. The import then empties the first collection of the fan-out, raises while it builds
  the arguments of that collection's \<open>add\<close>, and stops: the command answers with an
  error, the first collection is empty, and nothing else in the service has changed, so
  the other collections still hold what they held. (The calls on the first collection and
  the opening of the other two are assumed not to fail.)
\<close>

theorem unvalidated_entry_clears_first_collection:
  assumes "3 < length es" and "list_all entry_ok (take 3 es)"
    and "es ! 3 = JDict kv" and "map_of kv ''metadata'' = None"
    and "\<forall>op. \<not> failing (db s) ''bge_base_imported_data'' op"
    and "\<not> failing (db s) ''bge_large_imported_data'' OpOpen"
    and "\<not> failing (db s) ''e5_large_imported_data'' OpOpen"
  shows "validate_file_structure (JList es) \<and>
         (\<exists>e. step (CmdImport (JList es)) s =
            (Failed e,
             s\<lparr>db := (db s)\<lparr>store := (store (db s))(''bge_base_imported_data'' := [])\<rparr>\<rparr>))"
proof -
  let ?c = "''bge_base_imported_data''"
  let ?m = "''BAAI/bge-base-en-v1.5''"
  let ?b1 = "(db s)\<lparr>store := (store (db s))(?c := [])\<rparr>"
  from assms(1,2) have v: "validate_file_structure (JList es)"
    by (auto simp: validate_file_structure_def)
  from assms(5-7) have g: "get_all_collections_for_type False (db s) = (Inr model_set, db s)"
    by (simp add: open_collections_model_set)
  from assms(5) have "\<exists>n b1. clear_existing ?c (db s) = (Inr n, b1)"
    by (simp add: clear_existing_def col_get_def col_delete_def Let_def)
  then obtain n b1 where c: "clear_existing ?c (db s) = (Inr n, b1)" by blast
  from clear_existing_ok [OF c] have "b1 = ?b1" by (intro backend_eqI) simp_all
  with c have c': "clear_existing ?c (db s) = (Inr n, ?b1)" by simp
  from missing_metadata_fails [OF assms(1,3,4)] obtain e' where
    md: "try_map metadata_of es = Inl e'" by blast
  have "\<exists>e. import_into es ?c ?m (db s) = (Some e, ?b1)"
    by (simp add: import_into_def c' md split: sum.splits)
  then obtain e where "import_into es ?c ?m (db s) = (Some e, ?b1)" by blast
  then have "import_loop es model_set (db s) = (Some e, ?b1)"
    by (simp add: model_set_eq)
  with v g have "step (CmdImport (JList es)) s = (Failed e, s\<lparr>db := ?b1\<rparr>)"
    by (simp add: cmd_import_def entries_of_def)
  with v show ?thesis by blast
qed


lemma unvalidated_parts:
  "JList (entries_of unvalidated_file) = unvalidated_file"
  "3 < length (entries_of unvalidated_file)"
  "list_all entry_ok (take 3 (entries_of unvalidated_file))"
  "entries_of unvalidated_file ! 3 =
     JDict [(''id'', JStr ''f4''), (''text'', JStr ''returns are free'')]"
  "try_map id_of (entries_of unvalidated_file) = Inr [''f1'', ''f2'', ''f3'', ''f4'']"
  "try_map (doc_of m) (entries_of unvalidated_file) =
     Inr (map (\<lambda>t. format_for_embedding t m ''document'')
       [''refund window is 30 days'', ''orders ship in 2 days'', ''support answers in 1 day'',
        ''returns are free''])"
  "try_map metadata_of (entries_of unvalidated_file) = Inl (KeyError ''metadata'')"
  by (simp_all add: unvalidated_file_def entries_of_def entry_ok_def numeral_3_eq_3
      id_of_def doc_of_def text_of_def metadata_of_def entry_get_def)

text \<open>The four-entry file imported over one old fact per collection.\<close>

theorem unvalidated_entry_clears_first_collection_witness:
  "3 < length (entries_of unvalidated_file) \<and>
   list_all entry_ok (take 3 (entries_of unvalidated_file)) \<and>
   entries_of unvalidated_file ! 3 =
     JDict [(''id'', JStr ''f4''), (''text'', JStr ''returns are free'')] \<and>
   map_of [(''id'', JStr ''f4''), (''text'', JStr ''returns are free'')] ''metadata'' = None \<and>
   validate_file_structure unvalidated_file \<and>
   (\<exists>e. step (CmdImport unvalidated_file) (stale_session ''bge-base'') =
      (Failed e,
       (stale_session ''bge-base'')\<lparr>db := (db (stale_session ''bge-base''))
          \<lparr>store := (store (db (stale_session ''bge-base'')))
             (''bge_base_imported_data'' := [])\<rparr>\<rparr>))"
proof -
  have m: "map_of [(''id'', JStr ''f4''), (''text'', JStr ''returns are free'')] ''metadata'' = None"
    by simp
  have f: "\<forall>op. \<not> failing (db (stale_session ''bge-base'')) ''bge_base_imported_data'' op"
    "\<not> failing (db (stale_session ''bge-base'')) ''bge_large_imported_data'' OpOpen"
    "\<not> failing (db (stale_session ''bge-base'')) ''e5_large_imported_data'' OpOpen"
    by (simp_all add: stale_session_failing)
  from unvalidated_entry_clears_first_collection
    [OF unvalidated_parts(2,3,4) m f, unfolded unvalidated_parts(1)]
    unvalidated_parts(2,3,4) m
  show ?thesis by blast
qed

text \<open>
  Claim C10 as stated fails in one point: the failed import does not delete each
  collection's contents. The first collection is emptied; the second and the third still
  hold the old fact.
\<close>

theorem later_collections_keep_their_facts:
  "validate_file_structure unvalidated_file \<and>
   fst (step (CmdImport unvalidated_file) (stale_session ''bge-base'')) =
     Failed (KeyError ''metadata'') \<and>
   store (db (stale_session ''bge-base'')) ''bge_large_imported_data'' = [old_fact] \<and>
   store (db (snd (step (CmdImport unvalidated_file) (stale_session ''bge-base''))))
     ''bge_base_imported_data'' = [] \<and>
   store (db (snd (step (CmdImport unvalidated_file) (stale_session ''bge-base''))))
     ''bge_large_imported_data'' = [old_fact] \<and>
   store (db (snd (step (CmdImport unvalidated_file) (stale_session ''bge-base''))))
     ''e5_large_imported_data'' = [old_fact]"
proof -
  have v: "validate_file_structure unvalidated_file"
    by (simp add: validate_file_structure_def unvalidated_file_def entry_ok_def)
  have g: "get_all_collections_for_type False (db (stale_session ''bge-base'')) =
      (Inr model_set, db (stale_session ''bge-base''))"
    by (simp add: open_collections_model_set stale_session_failing)
  have i: "import_into (entries_of unvalidated_file) ''bge_base_imported_data''
      ''BAAI/bge-base-en-v1.5'' (db (stale_session ''bge-base'')) =
      (Some (KeyError ''metadata''),
       (db (stale_session ''bge-base''))\<lparr>store := (store (db (stale_session ''bge-base'')))
          (''bge_base_imported_data'' := [])\<rparr>)"
    by (simp add: import_into_def unvalidated_parts(5-7) clear_existing_def col_get_def
        col_delete_def stale_session_failing Let_def item_id_def stale_session_db
        backend_with_def no_faults_def model_set_eq old_fact_def)
  have "step (CmdImport unvalidated_file) (stale_session ''bge-base'') =
      (Failed (KeyError ''metadata''),
       (stale_session ''bge-base'')\<lparr>db := (db (stale_session ''bge-base''))
          \<lparr>store := (store (db (stale_session ''bge-base'')))
             (''bge_base_imported_data'' := [])\<rparr>\<rparr>)"
    using v g i by (simp add: cmd_import_def model_set_eq)
  with v show ?thesis
    by (simp add: stale_session_db backend_with_def model_set_eq del: step.simps)
qed

end
